theory Spec2Isabelle
  imports Complex_Main
begin

section \<open>Python text primitives\<close>

text \<open>
  A Python string is modelled as a \<^typ>\<open>string\<close>, one \<^typ>\<open>char\<close> for each of its characters.
  Which characters \<^verbatim>\<open>str.isalnum\<close> and \<^verbatim>\<open>str.isspace\<close> accept is decided by Python's
  Unicode database: the functions below take the two tests as parameters \<open>isalnum\<close> and
  \<open>isspace\<close>. Only their values on ASCII characters are fixed (\<open>ascii_classes\<close>). Messages
  that the source writes in Chinese are kept as their UTF-8 bytes.
\<close>

type_synonym path = string

definition ascii_isalnum :: "char \<Rightarrow> bool" where
  \<comment> \<open>the ASCII characters that \<^verbatim>\<open>str.isalnum\<close> accepts\<close>
  "ascii_isalnum c =
     (let n = (of_char c :: nat)
      in (48 \<le> n \<and> n \<le> 57) \<or> (65 \<le> n \<and> n \<le> 90) \<or> (97 \<le> n \<and> n \<le> 122))"

definition ascii_isspace :: "char \<Rightarrow> bool" where
  \<comment> \<open>the ASCII characters that \<^verbatim>\<open>str.isspace\<close> accepts\<close>
  "ascii_isspace c = (let n = (of_char c :: nat) in (9 \<le> n \<and> n \<le> 13) \<or> (28 \<le> n \<and> n \<le> 32))"

definition ascii_classes :: "(char \<Rightarrow> bool) \<Rightarrow> (char \<Rightarrow> bool) \<Rightarrow> bool" where
  \<comment> \<open>the two tests are Python's on the ASCII characters\<close>
  "ascii_classes isalnum isspace =
     (\<forall>c. (of_char c :: nat) < 128 \<longrightarrow>
        isalnum c = ascii_isalnum c \<and> isspace c = ascii_isspace c)"

definition strip :: "(char \<Rightarrow> bool) \<Rightarrow> string \<Rightarrow> string" where
  \<comment> \<open>\<^verbatim>\<open>s.strip()\<close>\<close>
  "strip isspace s = rev (dropWhile isspace (rev (dropWhile isspace s)))"

definition replace_spaces :: "string \<Rightarrow> string" where
  \<comment> \<open>\<^verbatim>\<open>s.replace(" ", "_")\<close>\<close>
  "replace_spaces s = map (\<lambda>c. if c = CHR '' '' then CHR ''_'' else c) s"

fun split_once :: "string \<Rightarrow> string \<Rightarrow> string list" where
  \<comment> \<open>\<^verbatim>\<open>s.split(sep, 1)\<close> for a non-empty separator: the parts around the leftmost
      occurrence, or the string alone\<close>
  "split_once sep [] = [[]]"
| "split_once sep (c # cs) =
     (if take (length sep) (c # cs) = sep then [[], drop (length sep) (c # cs)]
      else (case split_once sep cs of
              [h, t] \<Rightarrow> [c # h, t]
            | _ \<Rightarrow> [c # cs]))"

function read_chunks :: "nat \<Rightarrow> string \<Rightarrow> string list" where
  \<comment> \<open>the successive non-empty results of \<^verbatim>\<open>f.read(chunk_size)\<close> on a file holding \<open>data\<close>\<close>
  "read_chunks chunk_size data =
     (if take chunk_size data = [] then []
      else take chunk_size data # read_chunks chunk_size (drop chunk_size data))"
  by pat_completeness auto
termination
  by (relation "measure (\<lambda>(n, data). length data)") auto

declare read_chunks.simps [simp del]

section \<open>NameSanitizer: the destination folder name (main.py)\<close>

record datetime =
  year :: nat
  month :: nat
  day :: nat
  hour :: nat
  minute :: nat
  second :: nat

definition digit :: "nat \<Rightarrow> char" where
  "digit d = ''0123456789'' ! (d mod 10)"

definition pad2 :: "nat \<Rightarrow> string" where
  "pad2 n = [digit (n div 10), digit n]"

definition pad4 :: "nat \<Rightarrow> string" where
  "pad4 n = [digit (n div 1000), digit (n div 100), digit (n div 10), digit n]"

definition strftime :: "datetime \<Rightarrow> string" where
  \<comment> \<open>\<^verbatim>\<open>strftime("%Y%m%d_%H%M%S")\<close> for the years 1000 to 9999 (for earlier years the
      digits of \<^verbatim>\<open>%Y\<close> depend on the platform; Python has no later ones)\<close>
  "strftime t =
     pad4 (year t) @ pad2 (month t) @ pad2 (day t) @ ''_'' @
     pad2 (hour t) @ pad2 (minute t) @ pad2 (second t)"

definition keep_char :: "(char \<Rightarrow> bool) \<Rightarrow> char \<Rightarrow> bool" where
  \<comment> \<open>\<^verbatim>\<open>c.isalnum() or c in "-_ "\<close>\<close>
  "keep_char isalnum c = (isalnum c \<or> c \<in> set ''-_ '')"

definition safe_project_name :: "(char \<Rightarrow> bool) \<Rightarrow> (char \<Rightarrow> bool) \<Rightarrow> string \<Rightarrow> string" where
  \<comment> \<open>\<open>entry\<close> is \<^verbatim>\<open>project_name_var.get()\<close>\<close>
  "safe_project_name isalnum isspace entry =
     (let project_name = strip isspace entry
      in if project_name \<noteq> []
         then replace_spaces (strip isspace (filter (keep_char isalnum) project_name))
         else [])"

definition date_folder_name ::
  "(char \<Rightarrow> bool) \<Rightarrow> (char \<Rightarrow> bool) \<Rightarrow> bool \<Rightarrow> string \<Rightarrow> datetime \<Rightarrow> string" where
  \<comment> \<open>the name \<^verbatim>\<open>copy_process\<close> stores in \<^verbatim>\<open>copy_manager.date_folder\<close>; \<open>now\<close> is read only
      when the date prefix is on\<close>
  "date_folder_name isalnum isspace auto_date_prefix entry now =
     (let safe = safe_project_name isalnum isspace entry
      in if auto_date_prefix then
           (let date_str = strftime now
            in if safe \<noteq> [] then date_str @ ''_'' @ safe else date_str)
         else safe)"

definition name_placeholder :: string where
  "name_placeholder =
     ''('' @ [CHR 0xE9, CHR 0x9C, CHR 0x80, CHR 0xE8, CHR 0xBE, CHR 0x93, CHR 0xE5, CHR 0x85,
             CHR 0xA5, CHR 0xE9, CHR 0xA1, CHR 0xB9, CHR 0xE7, CHR 0x9B, CHR 0xAE, CHR 0xE5,
             CHR 0x90, CHR 0x8D, CHR 0xE7, CHR 0xA7, CHR 0xB0] @ '')''"

definition update_folder_preview ::
  "(char \<Rightarrow> bool) \<Rightarrow> (char \<Rightarrow> bool) \<Rightarrow> bool \<Rightarrow> string \<Rightarrow> datetime \<Rightarrow> string" where
  \<comment> \<open>the folder name shown by the preview label\<close>
  "update_folder_preview isalnum isspace auto_date_prefix entry now =
     (let safe = safe_project_name isalnum isspace entry
      in if auto_date_prefix then
           (let date_str = strftime now
            in if safe \<noteq> [] then date_str @ ''_'' @ safe else date_str)
         else if safe \<noteq> [] then safe else name_placeholder)"

section \<open>ChunkedCopier: chunk size tiers (main.py, copy\_file\_with\_progress)\<close>

definition chunk_size_for :: "nat \<Rightarrow> nat" where
  "chunk_size_for file_size =
     (if file_size > 500 * 1024 * 1024 then 16 * 1024 * 1024
      else if file_size > 100 * 1024 * 1024 then 8 * 1024 * 1024
      else if file_size > 10 * 1024 * 1024 then 4 * 1024 * 1024
      else 1024 * 1024)"

section \<open>HashVerifier (md5\_verifier.py)\<close>

text \<open>
  A file system state maps a path to the bytes of the file, or to the message of the
  exception that opening or reading it raises. \<^verbatim>\<open>hashlib.md5\<close> is a parameter \<open>md5\<close>: the
  hex digest of the bytes fed to \<^verbatim>\<open>update\<close>, concatenated. A call that raises returns
  \<open>Inl\<close> with the exception's message.
\<close>

type_synonym filesystem = "path \<Rightarrow> string + string"

definition msg_md5_failed :: string where
  "msg_md5_failed =
     [CHR 0xE8, CHR 0xAE, CHR 0xA1, CHR 0xE7, CHR 0xAE, CHR 0x97] @ ''MD5'' @
     [CHR 0xE5, CHR 0xA4, CHR 0xB1, CHR 0xE8, CHR 0xB4, CHR 0xA5] @ '' ''"

definition msg_mismatch_source :: string where
  "msg_mismatch_source =
     ''MD5'' @ [CHR 0xE4, CHR 0xB8, CHR 0x8D, CHR 0xE5, CHR 0x8C, CHR 0xB9, CHR 0xE9, CHR 0x85,
               CHR 0x8D] @ '': '' @ [CHR 0xE6, CHR 0xBA, CHR 0x90] @ ''=''"

definition msg_mismatch_dest :: string where
  "msg_mismatch_dest = '', '' @ [CHR 0xE7, CHR 0x9B, CHR 0xAE, CHR 0xE6, CHR 0xA0, CHR 0x87] @ ''=''"

definition msg_verify_failed :: string where
  "msg_verify_failed =
     [CHR 0xE9, CHR 0xAA, CHR 0x8C, CHR 0xE8, CHR 0xAF, CHR 0x81, CHR 0xE5, CHR 0xA4, CHR 0xB1,
      CHR 0xE8, CHR 0xB4, CHR 0xA5] @ '': ''"

definition msg_load_failed :: string where
  "msg_load_failed =
     [CHR 0xE5, CHR 0x8A, CHR 0xA0, CHR 0xE8, CHR 0xBD, CHR 0xBD, CHR 0xE6, CHR 0xA0, CHR 0xA1,
      CHR 0xE9, CHR 0xAA, CHR 0x8C, CHR 0xE5, CHR 0x92, CHR 0x8C, CHR 0xE6, CHR 0x96, CHR 0x87,
      CHR 0xE4, CHR 0xBB, CHR 0xB6, CHR 0xE5, CHR 0xA4, CHR 0xB1, CHR 0xE8, CHR 0xB4, CHR 0xA5] @
     '': ''"

definition calculate_md5 :: "(string \<Rightarrow> string) \<Rightarrow> filesystem \<Rightarrow> path \<Rightarrow> nat \<Rightarrow> string + string" where
  "calculate_md5 md5 fs file_path chunk_size =
     (case fs file_path of
        Inl e \<Rightarrow> Inl (msg_md5_failed @ file_path @ '': '' @ e)
      | Inr data \<Rightarrow> Inr (md5 (concat (read_chunks chunk_size data))))"

definition verify_file ::
  "(string \<Rightarrow> string) \<Rightarrow> filesystem \<Rightarrow> filesystem \<Rightarrow> path \<Rightarrow> path \<Rightarrow> bool \<times> string" where
  \<comment> \<open>\<open>fs1\<close> is the file system when the source digest is computed, \<open>fs2\<close> when the
      destination digest is\<close>
  "verify_file md5 fs1 fs2 source_path dest_path =
     (case calculate_md5 md5 fs1 source_path 8192 of
        Inl e \<Rightarrow> (False, msg_verify_failed @ e)
      | Inr source_md5 \<Rightarrow>
          (case calculate_md5 md5 fs2 dest_path 8192 of
             Inl e \<Rightarrow> (False, msg_verify_failed @ e)
           | Inr dest_md5 \<Rightarrow>
               if source_md5 = dest_md5 then (True, [])
               else (False, msg_mismatch_source @ source_md5 @ msg_mismatch_dest @ dest_md5)))"

definition load_line :: "(char \<Rightarrow> bool) \<Rightarrow> (string \<rightharpoonup> string) \<Rightarrow> string \<Rightarrow> (string \<rightharpoonup> string)" where
  \<comment> \<open>the body of the loop over the lines of the manifest\<close>
  "load_line isspace checksums raw =
     (let line = strip isspace raw
      in if line \<noteq> [] \<and> take 1 line \<noteq> ''#'' then
           (case split_once ''  '' line of
              [md5_hash, file_path] \<Rightarrow> checksums(file_path \<mapsto> md5_hash)
            | _ \<Rightarrow> checksums)
         else checksums)"

definition load_checksum_file ::
  "(char \<Rightarrow> bool) \<Rightarrow> (path \<Rightarrow> string + string list) \<Rightarrow> path \<Rightarrow> string + (string \<rightharpoonup> string)" where
  \<comment> \<open>\<open>read_lines\<close> gives the lines that iterating the opened text file yields, or the
      message of the exception\<close>
  "load_checksum_file isspace read_lines checksum_file =
     (case read_lines checksum_file of
        Inl e \<Rightarrow> Inl (msg_load_failed @ e)
      | Inr lines \<Rightarrow> Inr (foldl (load_line isspace) Map.empty lines))"

section \<open>Source items and options (main.py)\<close>

record source_item =
  item_path :: path
  item_name :: string
  custom_name :: "string option"

definition folder_name_of :: "source_item \<Rightarrow> string" where
  \<comment> \<open>\<^verbatim>\<open>source_item.get('custom_name', source_item['name'])\<close>\<close>
  "folder_name_of source_item =
     (case custom_name source_item of Some n \<Rightarrow> n | None \<Rightarrow> item_name source_item)"

record options =
  auto_folder :: bool
  auto_date_prefix :: bool
  only_media :: bool
  project_name_entry :: string
  media_extensions :: "string list"
  destination_path :: path

section \<open>The environment of a session\<close>

text \<open>
  What a session reads from outside is an environment that stays the same while the session
  runs: the directory listings of the source trees, the sizes and bytes of the source files,
  the I/O failures, the path functions of the platform, the tests and the case mapping of
  Python's Unicode database, and the readings of the clock. The k-th reading of \<^verbatim>\<open>time.time()\<close> by the
  transfer logic is \<open>clock e k\<close>, the reading of \<^verbatim>\<open>datetime.now()\<close> at that moment
  \<open>calendar e k\<close>; no ordering of the readings is assumed. The flag \<^verbatim>\<open>copy_manager.copying\<close>
  is cleared by \<^verbatim>\<open>stop_copy\<close> from the user interface: \<open>stop_requested e k\<close> tells whether
  that has happened when the flag is examined for the k-th time.
\<close>

datatype error =
    OpenError path
  | StreamError path nat
  | Copy2Error path
  | SizeError path
  | MkdirError path
  | Md5Error string
  | ZeroDivisionError
  | TypeError

record env =
  walk :: "path \<Rightarrow> (path \<times> string list) list"
    \<comment> \<open>\<^verbatim>\<open>os.walk(path)\<close>: each directory with the names of its files\<close>
  relpath :: "path \<Rightarrow> path \<Rightarrow> path"
  getsize :: "path \<Rightarrow> nat option"
    \<comment> \<open>\<^verbatim>\<open>os.path.getsize\<close> of a source file; \<open>None\<close> when it raises\<close>
  source_read :: filesystem
  stream_fault :: "path \<Rightarrow> nat option"
    \<comment> \<open>\<open>Some k\<close>: the k-th \<^verbatim>\<open>src.read\<close> or \<^verbatim>\<open>dst.write\<close> (from 0) of the chunked copy of
        this source file raises\<close>
  open_fails :: "path \<Rightarrow> bool"
    \<comment> \<open>opening this destination file for writing raises\<close>
  copy2_fails :: "path \<Rightarrow> bool"
    \<comment> \<open>\<^verbatim>\<open>shutil.copy2\<close> of this source file raises\<close>
  makedirs_fails :: "path \<Rightarrow> bool"
  md5_hex :: "string \<Rightarrow> string"
    \<comment> \<open>\<^verbatim>\<open>hashlib.md5\<close>\<close>
  join :: "path \<Rightarrow> path \<Rightarrow> path"
    \<comment> \<open>\<^verbatim>\<open>os.path.join\<close> of the platform\<close>
  splitext_ext :: "path \<Rightarrow> string"
    \<comment> \<open>\<^verbatim>\<open>os.path.splitext(p)[1]\<close> of the platform\<close>
  str_lower :: "string \<Rightarrow> string"
    \<comment> \<open>\<^verbatim>\<open>str.lower\<close>\<close>
  str_isalnum :: "char \<Rightarrow> bool"
  str_isspace :: "char \<Rightarrow> bool"
  clock :: "nat \<Rightarrow> real"
  calendar :: "nat \<Rightarrow> datetime"
  stop_requested :: "nat \<Rightarrow> bool"

definition is_media_file :: "env \<Rightarrow> options \<Rightarrow> path \<Rightarrow> bool" where
  "is_media_file e opts file_path =
     (str_lower e (splitext_ext e file_path) \<in> set (media_extensions opts))"

definition skipped :: "env \<Rightarrow> options \<Rightarrow> path \<Rightarrow> bool" where
  \<comment> \<open>\<^verbatim>\<open>only_media_var.get() and not is_media_file(path)\<close>\<close>
  "skipped e opts file_path = (only_media opts \<and> \<not> is_media_file e opts file_path)"

section \<open>The state of the tool\<close>

record copy_manager =
  copying :: bool
  verifying :: bool
  total_files :: int
  copied_files :: int
  verified_files :: int
  total_size :: int
  copied_size :: real
    \<comment> \<open>an \<^verbatim>\<open>int\<close>, but for the float that a progress push stores for the time of one call\<close>
  copy_start_time :: real
  copy_speed :: real
  verify_start_time :: real
  date_folder :: "string option"
  total_md5_files :: int
  md5_verified_files :: int
  md5_calc_size :: int
  md5_calc_speed :: real
  md5_start_time :: real

record display =
  copy_progress :: real
  copy_speed_label :: real
  copy_elapsed_label :: real
  copy_eta_label :: real
  verify_progress :: real
  verify_speed_label :: real
  verify_elapsed_label :: real
  verify_eta_label :: real

datatype log_entry =
    LogNegativeTime real
  | LogSpeedAnomaly real
  | LogLargeFile path
  | LogChunkProgress real
  | LogFallback error
  | LogMakedirs path bool
  | LogCopyFile string path path
  | LogCopyOk string
  | LogSizeMatch nat
  | LogSizeMismatch nat nat
  | LogAbsentAfterCopy string
  | LogCopied string nat
  | LogCopyFailed string error
  | LogTotals int int
  | LogVerifyStart int
  | LogCheckFile string path path bool
  | LogMd5Match string string
  | LogMd5Mismatch string string string
  | LogMd5Error string error
  | LogMissing string
  | LogSummary int int int
  | LogComplete
  | LogStopped
  | LogProcessError error

record counters =
  c_total_files :: int
  c_copied_files :: int
  c_verified_files :: int
  c_total_size :: int
  c_copied_size :: real

text \<open>
  The tool's state extends the copy manager's fields with the display, the destination
  files, and the lines of the session log. \<open>trail\<close> is a history variable: \<open>mark\<close> appends
  the counters after an assignment to one of them, flagged when the value is the one a
  progress push stores for the time of the display update.
\<close>

record tool = copy_manager +
  shown :: display
  dest :: "path \<rightharpoonup> string"
  log :: "log_entry list"
  ticks :: nat
  polls :: nat
  trail :: "(bool \<times> counters) list"

definition snap :: "tool \<Rightarrow> counters" where
  "snap w =
     \<lparr>c_total_files = total_files w, c_copied_files = copied_files w,
      c_verified_files = verified_files w, c_total_size = total_size w,
      c_copied_size = copied_size w\<rparr>"

definition mark :: "bool \<Rightarrow> tool \<Rightarrow> tool" where
  "mark transient w = w\<lparr>trail := trail w @ [(transient, snap w)]\<rparr>"

definition tick :: "tool \<Rightarrow> tool" where
  "tick w = w\<lparr>ticks := Suc (ticks w)\<rparr>"

definition log_message :: "log_entry \<Rightarrow> tool \<Rightarrow> tool" where
  "log_message m w = w\<lparr>log := log w @ [m]\<rparr>"

definition poll :: "env \<Rightarrow> tool \<Rightarrow> tool" where
  \<comment> \<open>a stop request that has arrived takes effect before the flag is examined\<close>
  "poll e w = w\<lparr>copying := (copying w \<and> \<not> stop_requested e (polls w)), polls := Suc (polls w)\<rparr>"

definition dest_fs :: "tool \<Rightarrow> filesystem" where
  "dest_fs w p = (case dest w p of Some data \<Rightarrow> Inr data | None \<Rightarrow> Inl ''No such file or directory'')"

section \<open>ProgressTracker (main.py, update\_progress and update\_verify\_progress)\<close>

definition copy_elapsed :: "env \<Rightarrow> tool \<Rightarrow> real" where
  "copy_elapsed e w =
     (if copy_start_time w > 0 then max 0 (clock e (ticks w) - copy_start_time w) else 0)"

definition copy_speed_mb_s :: "env \<Rightarrow> tool \<Rightarrow> real" where
  "copy_speed_mb_s e w =
     (let elapsed_time = copy_elapsed e w
      in if elapsed_time > 0 \<and> copied_size w \<ge> 0
         then max 0 ((copied_size w / (1024 * 1024)) / elapsed_time)
         else 0)"

definition copy_eta_seconds :: "env \<Rightarrow> tool \<Rightarrow> real" where
  "copy_eta_seconds e w =
     (let speed_mb_s = copy_speed_mb_s e w
      in if speed_mb_s > 0 \<and> real_of_int (total_size w) > copied_size w
         then ((real_of_int (total_size w) - copied_size w) / (1024 * 1024)) / speed_mb_s
         else 0)"

definition update_progress :: "env \<Rightarrow> tool \<Rightarrow> tool" where
  "update_progress e w =
     (if total_files w > 0 then
        let file_progress = real_of_int (copied_files w) / real_of_int (total_files w) * 100;
            elapsed_time = copy_elapsed e w;
            speed_mb_s = copy_speed_mb_s e w;
            eta_seconds = copy_eta_seconds e w;
            w1 = (if copy_start_time w > 0 then
                    (if clock e (ticks w) - copy_start_time w < 0
                     then log_message (LogNegativeTime (clock e (ticks w) - copy_start_time w)) (tick w)
                     else tick w)
                  else w);
            w2 = (if speed_mb_s < 0 \<or> speed_mb_s > 10000
                  then tick (log_message (LogSpeedAnomaly speed_mb_s) w1) else w1)
        in w2\<lparr>shown := (shown w2)\<lparr>copy_progress := file_progress, copy_speed_label := speed_mb_s,
                  copy_elapsed_label := elapsed_time, copy_eta_label := eta_seconds\<rparr>\<rparr>
      else w)"

definition verify_elapsed :: "env \<Rightarrow> tool \<Rightarrow> real" where
  "verify_elapsed e w =
     (if verify_start_time w > 0 then max 0 (clock e (ticks w) - verify_start_time w) else 0)"

definition verify_speed :: "env \<Rightarrow> tool \<Rightarrow> real" where
  \<comment> \<open>files per second\<close>
  "verify_speed e w =
     (let elapsed_time = verify_elapsed e w
      in if elapsed_time > 0 then real_of_int (verified_files w) / elapsed_time else 0)"

definition verify_eta_seconds :: "env \<Rightarrow> tool \<Rightarrow> real" where
  "verify_eta_seconds e w =
     (let verify_speed = verify_speed e w
      in if verify_speed > 0 \<and> total_files w > verified_files w
         then real_of_int (total_files w - verified_files w) / verify_speed
         else 0)"

definition update_verify_progress :: "env \<Rightarrow> tool \<Rightarrow> tool" where
  "update_verify_progress e w =
     (if total_files w > 0 then
        let file_progress = real_of_int (verified_files w) / real_of_int (total_files w) * 100;
            elapsed_time = verify_elapsed e w;
            speed = verify_speed e w;
            eta_seconds = verify_eta_seconds e w;
            w1 = (if verify_start_time w > 0 then
                    (if clock e (ticks w) - verify_start_time w < 0
                     then log_message (LogNegativeTime (clock e (ticks w) - verify_start_time w)) (tick w)
                     else tick w)
                  else w)
        in w1\<lparr>shown := (shown w1)\<lparr>verify_progress := file_progress, verify_speed_label := speed,
                  verify_elapsed_label := elapsed_time, verify_eta_label := eta_seconds\<rparr>\<rparr>
      else w)"

section \<open>ChunkedCopier (main.py, copy\_file\_with\_progress)\<close>

definition temp_copied_size :: "nat \<Rightarrow> nat \<Rightarrow> tool \<Rightarrow> real" where
  \<comment> \<open>the provisional cumulative bytes: the bytes of the files done plus this file's
      share, capped by the total; \<open>copied\<close> is the local \<^verbatim>\<open>copied_size\<close>\<close>
  "temp_copied_size file_size copied w =
     (let file_progress_ratio = (if file_size > 0 then real copied / real file_size else 0)
      in min (copied_size w + real file_size * file_progress_ratio) (real_of_int (total_size w)))"

definition progress_push :: "env \<Rightarrow> nat \<Rightarrow> nat \<Rightarrow> tool \<Rightarrow> tool" where
  \<comment> \<open>the batch update of the progress\<close>
  "progress_push e file_size copied w =
     (if total_size w > 0 then
        if \<bar>temp_copied_size file_size copied w - copied_size w\<bar> > real_of_int (total_size w) * 0.01
        then
          let original_copied_size = copied_size w;
              w1 = mark True (w\<lparr>copied_size := temp_copied_size file_size copied w\<rparr>);
              w2 = update_progress e w1
          in mark False (w2\<lparr>copied_size := original_copied_size\<rparr>)
        else w
      else w)"

definition after_chunk :: "env \<Rightarrow> nat \<Rightarrow> nat \<Rightarrow> real \<Rightarrow> real \<Rightarrow> tool \<Rightarrow> (real \<times> real) \<times> tool" where
  \<comment> \<open>the interval update after a chunk is written; returns the new
      \<^verbatim>\<open>last_update_time\<close> and \<^verbatim>\<open>last_progress_log\<close>\<close>
  "after_chunk e file_size copied last_update_time last_progress_log w =
     (let current_time = clock e (ticks w);
          w1 = tick w
      in if current_time - last_update_time \<ge> 0.2 then
           (if file_size > 100 * 1024 * 1024 \<and> current_time - last_progress_log \<ge> 10
            then ((current_time, current_time),
                  progress_push e file_size copied
                    (log_message (LogChunkProgress (real copied / real file_size * 100)) w1))
            else ((current_time, last_progress_log), progress_push e file_size copied w1))
         else ((last_update_time, last_progress_log), w1))"

fun chunk_loop ::
  "env \<Rightarrow> path \<Rightarrow> path \<Rightarrow> nat \<Rightarrow> nat \<Rightarrow> nat \<Rightarrow> real \<Rightarrow> real \<Rightarrow> string list \<Rightarrow> tool
     \<Rightarrow> error option \<times> tool" where
  \<comment> \<open>the \<^verbatim>\<open>while True\<close> loop over the chunks that the source still yields; \<open>i\<close> counts the
      iterations, \<open>copied\<close> is the local \<^verbatim>\<open>copied_size\<close>\<close>
  "chunk_loop e source_file dest_file file_size i copied last_update_time last_progress_log [] w =
     (let w1 = poll e w
      in if \<not> copying w1 then (None, w1)
         else if stream_fault e source_file = Some i then (Some (StreamError source_file i), w1)
         else (None, w1))"
| "chunk_loop e source_file dest_file file_size i copied last_update_time last_progress_log
     (chunk # rest) w =
     (let w1 = poll e w
      in if \<not> copying w1 then (None, w1)
         else if stream_fault e source_file = Some i then (Some (StreamError source_file i), w1)
         else
           let written = (case dest w1 dest_file of Some d \<Rightarrow> d | None \<Rightarrow> []) @ chunk;
               w2 = w1\<lparr>dest := (dest w1)(dest_file \<mapsto> written)\<rparr>;
               copied' = copied + length chunk;
               ((last_update_time', last_progress_log'), w3) =
                 after_chunk e file_size copied' last_update_time last_progress_log w2
           in chunk_loop e source_file dest_file file_size (Suc i) copied' last_update_time'
                last_progress_log' rest w3)"

definition copy2 :: "env \<Rightarrow> path \<Rightarrow> path \<Rightarrow> tool \<Rightarrow> error option \<times> tool" where
  \<comment> \<open>\<^verbatim>\<open>shutil.copy2(source_file, dest_file)\<close>\<close>
  "copy2 e source_file dest_file w =
     (case source_read e source_file of
        Inl msg \<Rightarrow> (Some (Copy2Error source_file), w)
      | Inr data \<Rightarrow>
          if copy2_fails e source_file then (Some (Copy2Error source_file), w)
          else (None, w\<lparr>dest := (dest w)(dest_file \<mapsto> data)\<rparr>))"

definition chunked_copy :: "env \<Rightarrow> path \<Rightarrow> path \<Rightarrow> nat \<Rightarrow> real \<Rightarrow> tool \<Rightarrow> error option \<times> tool" where
  \<comment> \<open>the body of the \<^verbatim>\<open>try\<close>: both files are opened, the destination is truncated, and
      the chunks are transferred\<close>
  "chunked_copy e source_file dest_file file_size last_update_time w =
     (case source_read e source_file of
        Inl msg \<Rightarrow> (Some (OpenError source_file), w)
      | Inr data \<Rightarrow>
          if open_fails e dest_file then (Some (OpenError dest_file), w)
          else chunk_loop e source_file dest_file file_size 0 0 last_update_time 0
                 (read_chunks (chunk_size_for file_size) data)
                 (w\<lparr>dest := (dest w)(dest_file \<mapsto> [])\<rparr>))"

definition copy_file_with_progress :: "env \<Rightarrow> path \<Rightarrow> path \<Rightarrow> nat \<Rightarrow> tool \<Rightarrow> error option \<times> tool" where
  "copy_file_with_progress e source_file dest_file file_size w =
     (let last_update_time = clock e (ticks w);
          w1 = tick w;
          w2 = (if file_size > 50 * 1024 * 1024 then log_message (LogLargeFile source_file) w1 else w1)
      in case chunked_copy e source_file dest_file file_size last_update_time w2 of
           (None, w3) \<Rightarrow> (None, w3)
         | (Some err, w3) \<Rightarrow> copy2 e source_file dest_file (log_message (LogFallback err) w3))"

section \<open>TransferSession: copying a folder (main.py, copy\_folder)\<close>

definition report_copy :: "env \<Rightarrow> path \<Rightarrow> path \<Rightarrow> string \<Rightarrow> tool \<Rightarrow> error option \<times> tool" where
  \<comment> \<open>the check of the result after \<^verbatim>\<open>copy_file_with_progress\<close> has returned\<close>
  "report_copy e source_file dest_file file w =
     (case dest w dest_file of
        Some written \<Rightarrow>
          (case getsize e source_file of
             None \<Rightarrow> (Some (SizeError source_file), log_message (LogCopyOk file) w)
           | Some source_size \<Rightarrow>
               (None,
                log_message
                  (if source_size = length written then LogSizeMatch source_size
                   else LogSizeMismatch source_size (length written))
                  (log_message (LogCopyOk file) w)))
      | None \<Rightarrow> (None, log_message (LogAbsentAfterCopy file) w))"

definition count_copied :: "env \<Rightarrow> string \<Rightarrow> nat \<Rightarrow> real \<Rightarrow> tool \<Rightarrow> tool" where
  \<comment> \<open>the update of the counters when a file is done\<close>
  "count_copied e file file_size copy_start w =
     (let copy_time = clock e (ticks w) - copy_start;
          w1 = tick w;
          w2 = mark False (w1\<lparr>copied_files := copied_files w1 + 1\<rparr>);
          w3 = mark False (w2\<lparr>copied_size := copied_size w2 + real file_size\<rparr>);
          w4 = (if copy_time > 0 then w3\<lparr>copy_speed := real file_size / copy_time\<rparr> else w3);
          w5 = update_progress e w4
      in log_message (LogCopied file file_size) w5)"

definition copy_one :: "env \<Rightarrow> path \<Rightarrow> path \<Rightarrow> string \<Rightarrow> tool \<Rightarrow> tool" where
  \<comment> \<open>the \<^verbatim>\<open>try\<close> ... \<^verbatim>\<open>except Exception\<close> around one file\<close>
  "copy_one e source_file dest_file file w =
     (case getsize e source_file of
        None \<Rightarrow> log_message (LogCopyFailed file (SizeError source_file)) w
      | Some file_size \<Rightarrow>
          let copy_start = clock e (ticks w);
              w1 = log_message (LogCopyFile file source_file dest_file) (tick w)
          in case copy_file_with_progress e source_file dest_file file_size w1 of
               (Some err, w2) \<Rightarrow> log_message (LogCopyFailed file err) w2
             | (None, w2) \<Rightarrow>
                 (case report_copy e source_file dest_file file w2 of
                    (Some err, w3) \<Rightarrow> log_message (LogCopyFailed file err) w3
                  | (None, w3) \<Rightarrow> count_copied e file file_size copy_start w3))"

fun copy_files :: "env \<Rightarrow> options \<Rightarrow> path \<Rightarrow> path \<Rightarrow> string list \<Rightarrow> tool \<Rightarrow> tool" where
  \<comment> \<open>\<^verbatim>\<open>for file in files\<close> in the directory \<open>root_dir\<close> (the loop's \<^verbatim>\<open>root\<close>)\<close>
  "copy_files e opts root_dir current_dest [] w = w"
| "copy_files e opts root_dir current_dest (file # files) w =
     (let w1 = poll e w
      in if \<not> copying w1 then w1
         else if skipped e opts (join e root_dir file) then copy_files e opts root_dir current_dest files w1
         else copy_files e opts root_dir current_dest files
                (copy_one e (join e root_dir file) (join e current_dest file) file w1))"

definition current_dest_of :: "env \<Rightarrow> path \<Rightarrow> path \<Rightarrow> path \<Rightarrow> path" where
  "current_dest_of e source_path target_path root_dir =
     (let rel_path = relpath e root_dir source_path
      in if rel_path = ''.'' then target_path else join e target_path rel_path)"

fun copy_walk :: "env \<Rightarrow> options \<Rightarrow> path \<Rightarrow> path \<Rightarrow> (path \<times> string list) list \<Rightarrow> tool \<Rightarrow> tool" where
  \<comment> \<open>\<^verbatim>\<open>for root, dirs, files in os.walk(source_path)\<close>\<close>
  "copy_walk e opts source_path target_path [] w = w"
| "copy_walk e opts source_path target_path ((root_dir, files) # entries) w =
     (let w1 = poll e w
      in if \<not> copying w1 then w1
         else
           let current_dest = current_dest_of e source_path target_path root_dir;
               w2 = log_message (LogMakedirs current_dest (\<not> makedirs_fails e current_dest)) w1
           in copy_walk e opts source_path target_path entries
                (copy_files e opts root_dir current_dest files w2))"

definition copy_folder :: "env \<Rightarrow> options \<Rightarrow> path \<Rightarrow> path \<Rightarrow> string \<Rightarrow> tool \<Rightarrow> error option \<times> tool" where
  "copy_folder e opts source_path dest_path folder_name w =
     (let target_path = join e dest_path folder_name
      in if makedirs_fails e target_path then (Some (MkdirError target_path), w)
         else (None, copy_walk e opts source_path target_path (walk e source_path) w))"

section \<open>TransferSession: counting (main.py, copy\_process)\<close>

fun count_files :: "env \<Rightarrow> options \<Rightarrow> path \<Rightarrow> string list \<Rightarrow> tool \<Rightarrow> tool" where
  "count_files e opts root_dir [] w = w"
| "count_files e opts root_dir (file # files) w =
     (if skipped e opts (join e root_dir file) then count_files e opts root_dir files w
      else
        let w1 = mark False (w\<lparr>total_files := total_files w + 1\<rparr>);
            w2 = (case getsize e (join e root_dir file) of
                    Some n \<Rightarrow> mark False (w1\<lparr>total_size := total_size w1 + int n\<rparr>)
                  | None \<Rightarrow> w1)
        in count_files e opts root_dir files w2)"

fun count_walk :: "env \<Rightarrow> options \<Rightarrow> (path \<times> string list) list \<Rightarrow> tool \<Rightarrow> tool" where
  "count_walk e opts [] w = w"
| "count_walk e opts ((root_dir, files) # entries) w =
     count_walk e opts entries (count_files e opts root_dir files w)"

fun count_items :: "env \<Rightarrow> options \<Rightarrow> source_item list \<Rightarrow> tool \<Rightarrow> tool" where
  "count_items e opts [] w = w"
| "count_items e opts (source_item # items) w =
     count_items e opts items (count_walk e opts (walk e (item_path source_item)) w)"

section \<open>TransferSession: verification (main.py, verify\_files and verify\_folder)\<close>

definition md5_timing :: "env \<Rightarrow> tool \<Rightarrow> tool" where
  \<comment> \<open>the elapsed time and the speed of the verification, at the head of the \<^verbatim>\<open>try\<close>\<close>
  "md5_timing e w =
     (let elapsed_time = clock e (ticks w) - md5_start_time w;
          w1 = (if elapsed_time < 0 then log_message (LogNegativeTime elapsed_time) (tick w)
                else tick w)
      in if elapsed_time > 0
         then w1\<lparr>md5_calc_speed := real_of_int (md5_calc_size w1) / elapsed_time\<rparr> else w1)"

definition compare_md5 :: "env \<Rightarrow> path \<Rightarrow> path \<Rightarrow> string \<Rightarrow> tool \<Rightarrow> tool" where
  \<comment> \<open>the \<^verbatim>\<open>try\<close> ... \<^verbatim>\<open>except Exception\<close> taken when the destination file exists; the
      progress percentage divides by \<^verbatim>\<open>total_md5_files\<close>\<close>
  "compare_md5 e source_file dest_file file w =
     (let w2 = md5_timing e w
      in if total_md5_files w2 = 0 then log_message (LogMd5Error file ZeroDivisionError) w2
         else
           case calculate_md5 (md5_hex e) (source_read e) source_file 8192 of
             Inl msg \<Rightarrow> log_message (LogMd5Error file (Md5Error msg)) w2
           | Inr source_md5 \<Rightarrow>
               (case calculate_md5 (md5_hex e) (dest_fs w2) dest_file 8192 of
                  Inl msg \<Rightarrow> log_message (LogMd5Error file (Md5Error msg)) w2
                | Inr dest_md5 \<Rightarrow>
                    if source_md5 = dest_md5 then
                      log_message (LogMd5Match file source_md5)
                        (update_verify_progress e
                           (mark False (w2\<lparr>verified_files := verified_files w2 + 1\<rparr>)))
                    else log_message (LogMd5Mismatch file source_md5 dest_md5) w2))"

definition verify_one :: "env \<Rightarrow> path \<Rightarrow> path \<Rightarrow> string \<Rightarrow> tool \<Rightarrow> tool" where
  "verify_one e source_file dest_file file w =
     (let w1 = w\<lparr>md5_verified_files := md5_verified_files w + 1\<rparr>;
          w2 = (case getsize e source_file of
                  Some file_size \<Rightarrow> w1\<lparr>md5_calc_size := md5_calc_size w1 + int file_size\<rparr>
                | None \<Rightarrow> w1);
          w3 = log_message (LogCheckFile file source_file dest_file (dest w2 dest_file \<noteq> None)) w2
      in if dest w3 dest_file \<noteq> None then compare_md5 e source_file dest_file file w3
         else log_message (LogMissing file) w3)"

fun verify_file_list :: "env \<Rightarrow> path \<Rightarrow> path \<Rightarrow> string list \<Rightarrow> tool \<Rightarrow> tool" where
  \<comment> \<open>\<^verbatim>\<open>for file in files\<close> of \<^verbatim>\<open>verify_folder\<close>\<close>
  "verify_file_list e root_dir current_dest [] w = w"
| "verify_file_list e root_dir current_dest (file # files) w =
     (let w1 = poll e w
      in if \<not> copying w1 then w1
         else verify_file_list e root_dir current_dest files
                (verify_one e (join e root_dir file) (join e current_dest file) file w1))"

fun verify_walk :: "env \<Rightarrow> path \<Rightarrow> path \<Rightarrow> (path \<times> string list) list \<Rightarrow> tool \<Rightarrow> tool" where
  "verify_walk e source_path dest_path [] w = w"
| "verify_walk e source_path dest_path ((root_dir, files) # entries) w =
     (let w1 = poll e w
      in if \<not> copying w1 then w1
         else verify_walk e source_path dest_path entries
                (verify_file_list e root_dir (current_dest_of e source_path dest_path root_dir) files w1))"

definition verify_folder :: "env \<Rightarrow> path \<Rightarrow> path \<Rightarrow> tool \<Rightarrow> tool" where
  "verify_folder e source_path dest_path w = verify_walk e source_path dest_path (walk e source_path) w"

fun verify_items :: "env \<Rightarrow> path \<Rightarrow> source_item list \<Rightarrow> tool \<Rightarrow> tool" where
  "verify_items e final_dest [] w = w"
| "verify_items e final_dest (source_item # items) w =
     (let w1 = poll e w
      in if \<not> copying w1 then w1
         else verify_items e final_dest items
                (verify_folder e (item_path source_item)
                   (join e final_dest (folder_name_of source_item)) w1))"

definition count_md5_files :: "env \<Rightarrow> source_item list \<Rightarrow> int" where
  \<comment> \<open>\<^verbatim>\<open>total_files += len(files)\<close> over every directory of every source item\<close>
  "count_md5_files e items =
     (\<Sum>source_item \<leftarrow> items. \<Sum>(root_dir, files) \<leftarrow> walk e (item_path source_item). int (length files))"



section \<open>TransferSession: one run (main.py, copy\_process)\<close>

fun copy_items :: "env \<Rightarrow> options \<Rightarrow> path \<Rightarrow> source_item list \<Rightarrow> tool \<Rightarrow> error option \<times> tool" where
  "copy_items e opts final_dest [] w = (None, w)"
| "copy_items e opts final_dest (source_item # items) w =
     (let w1 = poll e w
      in if \<not> copying w1 then (None, w1)
         else
           case copy_folder e opts (item_path source_item) final_dest (folder_name_of source_item) w1 of
             (Some err, w2) \<Rightarrow> (Some err, w2)
           | (None, w2) \<Rightarrow> copy_items e opts final_dest items w2)"





section \<open>A small session, for the concrete instances\<close>

definition posix_join :: "path \<Rightarrow> path \<Rightarrow> path" where
  \<comment> \<open>\<^verbatim>\<open>os.path.join(a, b)\<close> of posixpath\<close>
  "posix_join a b =
     (if take 1 b = ''/'' then b
      else if a = [] \<or> last a = CHR ''/'' then a @ b
      else a @ ''/'' @ b)"

definition ascii_lower :: "string \<Rightarrow> string" where
  \<comment> \<open>\<^verbatim>\<open>s.lower()\<close> of an ASCII string\<close>
  "ascii_lower s =
     map (\<lambda>c. case map_of (zip ''ABCDEFGHIJKLMNOPQRSTUVWXYZ'' ''abcdefghijklmnopqrstuvwxyz'') c of
                Some l \<Rightarrow> l
              | None \<Rightarrow> c) s"

definition posix_splitext_ext :: "path \<Rightarrow> string" where
  \<comment> \<open>\<^verbatim>\<open>os.path.splitext(p)[1]\<close> of posixpath: from the last dot of the last component,
      unless only dots precede it there\<close>
  "posix_splitext_ext p =
     (let name = rev (takeWhile (\<lambda>c. c \<noteq> CHR ''/'') (rev p));
          stem = rev (drop 1 (dropWhile (\<lambda>c. c \<noteq> CHR ''.'') (rev name)));
          ext = rev (takeWhile (\<lambda>c. c \<noteq> CHR ''.'') (rev name))
      in if CHR ''.'' \<in> set name \<and> (\<exists>c \<in> set stem. c \<noteq> CHR ''.'') then CHR ''.'' # ext else [])"

definition card_env :: env where
  \<comment> \<open>one source folder \<^verbatim>\<open>/card\<close> holding \<^verbatim>\<open>a.jpg\<close> (3 bytes) and \<^verbatim>\<open>notes.txt\<close> (2 bytes);
      a POSIX platform, ASCII text, no failures, no stop request, the k-th clock reading
      is k seconds\<close>
  "card_env =
     \<lparr>walk = (\<lambda>p. if p = ''/card'' then [(''/card'', [''a.jpg'', ''notes.txt''])] else []),
      relpath = (\<lambda>r s. ''.''),
      getsize = (\<lambda>p. if p = ''/card/a.jpg'' then Some 3
                      else if p = ''/card/notes.txt'' then Some 2 else None),
      source_read = (\<lambda>p. if p = ''/card/a.jpg'' then Inr ''abc''
                          else if p = ''/card/notes.txt'' then Inr ''hi'' else Inl ''missing''),
      stream_fault = (\<lambda>p. None), open_fails = (\<lambda>p. False), copy2_fails = (\<lambda>p. False),
      makedirs_fails = (\<lambda>p. False), md5_hex = (\<lambda>d. d), join = posix_join,
      splitext_ext = posix_splitext_ext, str_lower = ascii_lower, str_isalnum = ascii_isalnum,
      str_isspace = ascii_isspace, clock = (\<lambda>k. real k),
      calendar = (\<lambda>k. \<lparr>year = 2025, month = 1, day = 2, hour = 3, minute = 4, second = 5\<rparr>),
      stop_requested = (\<lambda>k. False)\<rparr>"



definition idle_tool :: tool where
  \<comment> \<open>the tool before its first session, with an empty destination\<close>
  "idle_tool =
     \<lparr>copying = False, verifying = False, total_files = 0, copied_files = 0, verified_files = 0,
      total_size = 0, copied_size = 0, copy_start_time = 0, copy_speed = 0, verify_start_time = 0,
      date_folder = None, total_md5_files = 0, md5_verified_files = 0, md5_calc_size = 0,
      md5_calc_speed = 0, md5_start_time = 0,
      shown = \<lparr>copy_progress = 0, copy_speed_label = 0, copy_elapsed_label = 0,
                copy_eta_label = 0, verify_progress = 0, verify_speed_label = 0,
                verify_elapsed_label = 0, verify_eta_label = 0\<rparr>,
      dest = Map.empty, log = [], ticks = 0, polls = 0, trail = []\<rparr>"

definition copying_tool :: tool where
  \<comment> \<open>in the copy phase of a session of 4 files and 1000 bytes, started at clock reading 1,
      before the first file is done\<close>
  "copying_tool =
     idle_tool\<lparr>copying := True, total_files := 4, total_size := 1000, copy_start_time := 1,
       ticks := 5\<rparr>"

section \<open>What the phases of a session leave unchanged\<close>

fun verify_failure :: "log_entry \<Rightarrow> bool" where
  \<comment> \<open>the log lines of a file that verification did not confirm\<close>
  "verify_failure (LogMissing file) = True"
| "verify_failure (LogMd5Mismatch file source_md5 dest_md5) = True"
| "verify_failure (LogMd5Error file err) = True"
| "verify_failure entry = False"

definition failures :: "tool \<Rightarrow> int" where
  "failures w = int (length (filter verify_failure (log w)))"

definition copy_frame :: "tool \<Rightarrow> int \<times> int \<times> int \<times> string option \<times> int \<times> int" where
  \<comment> \<open>what copying files does not touch\<close>
  "copy_frame w =
     (total_files w, total_size w, verified_files w, date_folder w, total_md5_files w, failures w)"

definition verify_frame :: "tool \<Rightarrow> int \<times> int \<times> int \<times> real \<times> string option \<times> int \<times> (path \<rightharpoonup> string)" where
  \<comment> \<open>what verifying files does not touch\<close>
  "verify_frame w =
     (total_files w, total_size w, copied_files w, copied_size w, date_folder w,
      total_md5_files w, dest w)"

definition verify_step :: "tool \<Rightarrow> tool \<Rightarrow> bool" where
  \<comment> \<open>\<open>w'\<close> is reached from \<open>w\<close> by verifying files: every file looked at is either
      verified or a logged failure\<close>
  "verify_step w w' =
     (verify_frame w' = verify_frame w \<and>
      verified_files w' + failures w' - md5_verified_files w' =
        verified_files w + failures w - md5_verified_files w \<and>
      (copying w' \<longrightarrow> copying w) \<and> set (log w) \<subseteq> set (log w') \<and>
      verified_files w \<le> verified_files w' \<and> md5_verified_files w \<le> md5_verified_files w')"

definition dest_file_of :: "env \<Rightarrow> path \<Rightarrow> source_item \<Rightarrow> path \<Rightarrow> string \<Rightarrow> path" where
  \<comment> \<open>the destination of a file of a source item: under the destination root, the item's
      folder name, the directory's relative path, the file's name\<close>
  "dest_file_of e final_dest source_item root_dir file =
     join e (current_dest_of e (item_path source_item)
             (join e final_dest (folder_name_of source_item)) root_dir) file"

section \<open>The counters along a session\<close>

definition size_of :: "env \<Rightarrow> path \<Rightarrow> nat" where
  \<comment> \<open>what the count adds to \<^verbatim>\<open>total_size\<close> for a file\<close>
  "size_of e p = (case getsize e p of Some n \<Rightarrow> n | None \<Rightarrow> 0)"

definition files_size :: "env \<Rightarrow> options \<Rightarrow> path \<Rightarrow> string list \<Rightarrow> nat" where
  "files_size e opts root_dir files =
     (\<Sum>file \<leftarrow> files. if skipped e opts (join e root_dir file) then 0 else size_of e (join e root_dir file))"

definition walk_size :: "env \<Rightarrow> options \<Rightarrow> (path \<times> string list) list \<Rightarrow> nat" where
  "walk_size e opts entries = (\<Sum>(root_dir, files) \<leftarrow> entries. files_size e opts root_dir files)"

definition items_size :: "env \<Rightarrow> options \<Rightarrow> source_item list \<Rightarrow> nat" where
  "items_size e opts items =
     (\<Sum>source_item \<leftarrow> items. walk_size e opts (walk e (item_path source_item)))"

definition files_count :: "env \<Rightarrow> options \<Rightarrow> path \<Rightarrow> string list \<Rightarrow> nat" where
  \<comment> \<open>the files of a directory that the only-media filter lets through\<close>
  "files_count e opts root_dir files =
     length (filter (\<lambda>file. \<not> skipped e opts (join e root_dir file)) files)"

definition walk_count :: "env \<Rightarrow> options \<Rightarrow> (path \<times> string list) list \<Rightarrow> nat" where
  "walk_count e opts entries = (\<Sum>(root_dir, files) \<leftarrow> entries. files_count e opts root_dir files)"

definition items_count :: "env \<Rightarrow> options \<Rightarrow> source_item list \<Rightarrow> nat" where
  "items_count e opts items =
     (\<Sum>source_item \<leftarrow> items. walk_count e opts (walk e (item_path source_item)))"

definition walk_length :: "(path \<times> string list) list \<Rightarrow> nat" where
  \<comment> \<open>all the files of a listing\<close>
  "walk_length entries = (\<Sum>(root_dir, files) \<leftarrow> entries. length files)"

definition items_length :: "env \<Rightarrow> source_item list \<Rightarrow> nat" where
  "items_length e items = (\<Sum>source_item \<leftarrow> items. walk_length (walk e (item_path source_item)))"

definition zero_counters :: counters where
  "zero_counters =
     \<lparr>c_total_files = 0, c_copied_files = 0, c_verified_files = 0, c_total_size = 0,
      c_copied_size = 0\<rparr>"

definition counters_le :: "counters \<Rightarrow> counters \<Rightarrow> bool" where
  "counters_le c c' =
     (c_total_files c \<le> c_total_files c' \<and> c_copied_files c \<le> c_copied_files c' \<and>
      c_verified_files c \<le> c_verified_files c' \<and> c_total_size c \<le> c_total_size c' \<and>
      c_copied_size c \<le> c_copied_size c')"

definition within_totals :: "bool \<Rightarrow> counters \<Rightarrow> bool" where
  \<comment> \<open>\<open>all_files\<close>: the only-media filter is off\<close>
  "within_totals all_files c =
     (c_copied_size c \<le> real_of_int (c_total_size c) \<and>
      (all_files \<longrightarrow> c_verified_files c \<le> c_total_files c))"

definition committed :: "(bool \<times> counters) list \<Rightarrow> counters list" where
  \<comment> \<open>the recorded counters, without the provisional values of the progress pushes\<close>
  "committed tr = map snd (filter (\<lambda>x. \<not> fst x) tr)"

definition trail_ok :: "bool \<Rightarrow> tool \<Rightarrow> bool" where
  \<comment> \<open>the trail starts with the reset; every recorded state is within the totals; the
      committed states never decrease, up to the present counters\<close>
  "trail_ok all_files w =
     (trail w \<noteq> [] \<and> hd (trail w) = (False, zero_counters) \<and>
      (\<forall>x \<in> set (trail w). within_totals all_files (snd x)) \<and>
      sorted_wrt counters_le (committed (trail w)) \<and>
      (\<forall>c \<in> set (committed (trail w)). counters_le c (snap w)) \<and>
      within_totals all_files (snap w))"

section \<open>The states of the small session\<close>




section \<open>Properties\<close>

text \<open>
  C4. The chunk size follows the size tiers: above 500 MiB 16 MiB, above 100 MiB 8 MiB,
  above 10 MiB 4 MiB, otherwise 1 MiB; a file of 600,000,000 bytes gets 16 MiB chunks.
\<close>

theorem chunk_size_tiers:
  "(file_size > 500 * 2 ^ 20 \<longrightarrow> chunk_size_for file_size = 16 * 2 ^ 20) \<and>
   (file_size > 100 * 2 ^ 20 \<and> file_size \<le> 500 * 2 ^ 20 \<longrightarrow> chunk_size_for file_size = 8 * 2 ^ 20) \<and>
   (file_size > 10 * 2 ^ 20 \<and> file_size \<le> 100 * 2 ^ 20 \<longrightarrow> chunk_size_for file_size = 4 * 2 ^ 20) \<and>
   (file_size \<le> 10 * 2 ^ 20 \<longrightarrow> chunk_size_for file_size = 2 ^ 20) \<and>
   chunk_size_for 600000000 = 16 * 2 ^ 20"
  by (simp add: chunk_size_for_def)

theorem chunk_size_tiers_witness:
  "chunk_size_for 600000000 = 16777216 \<and> chunk_size_for 524288000 = 8388608 \<and>
   chunk_size_for 104857601 = 8388608 \<and> chunk_size_for 104857600 = 4194304 \<and>
   chunk_size_for 10485761 = 4194304 \<and> chunk_size_for 10485760 = 1048576 \<and>
   chunk_size_for 0 = 1048576"
  using chunk_size_tiers [of 600000000] chunk_size_tiers [of 524288000]
    chunk_size_tiers [of 104857601] chunk_size_tiers [of 104857600]
    chunk_size_tiers [of 10485761] chunk_size_tiers [of 10485760] chunk_size_tiers [of 0]
  by simp

lemma set_strip: "set (strip isspace s) \<subseteq> set s"
  unfolding strip_def by (auto dest!: set_dropWhileD)

lemma strip_cong: "\<forall>c \<in> set s. isspace c = isspace' c \<Longrightarrow> strip isspace s = strip isspace' s"
proof -
  assume a: "\<forall>c \<in> set s. isspace c = isspace' c"
  then have 1: "dropWhile isspace s = dropWhile isspace' s"
    by (intro dropWhile_cong) simp_all
  have "\<forall>c \<in> set (rev (dropWhile isspace' s)). isspace c = isspace' c"
    using a by (auto dest!: set_dropWhileD)
  then have "dropWhile isspace (rev (dropWhile isspace' s)) = dropWhile isspace' (rev (dropWhile isspace' s))"
    by (intro dropWhile_cong) simp_all
  with 1 show ?thesis by (simp add: strip_def)
qed

lemma safe_project_name_steps:
  "safe_project_name isalnum isspace entry =
     replace_spaces (strip isspace (filter (keep_char isalnum) (strip isspace entry)))"
proof (cases "strip isspace entry = []")
  case True
  then show ?thesis by (simp add: safe_project_name_def) (simp add: strip_def replace_spaces_def)
next
  case False
  then show ?thesis by (simp add: safe_project_name_def)
qed

lemma safe_chars:
  assumes "c \<in> set (safe_project_name isalnum isspace entry)"
  shows "isalnum c \<or> c = CHR ''-'' \<or> c = CHR ''_''"
proof -
  from assms obtain d where d: "d \<in> set (strip isspace (filter (keep_char isalnum) (strip isspace entry)))"
    and c: "c = (if d = CHR '' '' then CHR ''_'' else d)"
    by (auto simp: safe_project_name_steps replace_spaces_def)
  from d set_strip have "d \<in> set (filter (keep_char isalnum) (strip isspace entry))" by blast
  then have "keep_char isalnum d" by simp
  with c show ?thesis by (auto simp: keep_char_def)
qed

lemma safe_project_name_ascii:
  assumes "ascii_classes isalnum isspace" and "\<forall>c \<in> set entry. (of_char c :: nat) < 128"
  shows "safe_project_name isalnum isspace entry = safe_project_name ascii_isalnum ascii_isspace entry"
proof -
  have sp: "\<forall>c \<in> set t. isspace c = ascii_isspace c" if "set t \<subseteq> set entry" for t
    using assms that by (auto simp: ascii_classes_def)
  have an: "\<forall>c \<in> set t. keep_char isalnum c = keep_char ascii_isalnum c" if "set t \<subseteq> set entry" for t
    using assms that by (auto simp: ascii_classes_def keep_char_def)
  have 1: "strip isspace entry = strip ascii_isspace entry"
    using sp [of entry] by (intro strip_cong) simp
  have s1: "set (strip ascii_isspace entry) \<subseteq> set entry" by (rule set_strip)
  have 2: "filter (keep_char isalnum) (strip ascii_isspace entry) =
           filter (keep_char ascii_isalnum) (strip ascii_isspace entry)"
    using an [OF s1] by (intro filter_cong) simp_all
  have "set (filter (keep_char ascii_isalnum) (strip ascii_isspace entry)) \<subseteq> set entry"
    using s1 by auto
  from sp [OF this]
  have 3: "strip isspace (filter (keep_char ascii_isalnum) (strip ascii_isspace entry)) =
           strip ascii_isspace (filter (keep_char ascii_isalnum) (strip ascii_isspace entry))"
    by (intro strip_cong)
  show ?thesis by (simp add: safe_project_name_steps 1 2 3)
qed

text \<open>
  C7. The sanitised project name is the entry stripped, filtered to alphanumerics, hyphen,
  underscore and space, stripped again, with spaces replaced by underscores, whatever
  characters Python counts as alphanumeric or as whitespace; with Python's tests on ASCII,
  the entry \<^verbatim>\<open>"  My Shoot! #1  "\<close> gives the folder name \<^verbatim>\<open>My_Shoot_1\<close> without the date prefix and
  \<^verbatim>\<open>20250102_030405_My_Shoot_1\<close> with it at 2025-01-02 03:04:05, in the copy and in the preview.
\<close>

theorem sanitized_folder_name:
  "safe_project_name isalnum isspace entry =
     replace_spaces (strip isspace (filter (keep_char isalnum) (strip isspace entry))) \<and>
   (\<forall>c \<in> set (safe_project_name isalnum isspace entry).
      isalnum c \<or> c = CHR ''-'' \<or> c = CHR ''_'') \<and>
   (ascii_classes isalnum isspace \<longrightarrow>
      date_folder_name isalnum isspace False ''  My Shoot! #1  '' now = ''My_Shoot_1'' \<and>
      update_folder_preview isalnum isspace False ''  My Shoot! #1  '' now = ''My_Shoot_1'' \<and>
      date_folder_name isalnum isspace True ''  My Shoot! #1  ''
        \<lparr>year = 2025, month = 1, day = 2, hour = 3, minute = 4, second = 5\<rparr>
        = ''20250102_030405_My_Shoot_1'' \<and>
      update_folder_preview isalnum isspace True ''  My Shoot! #1  ''
        \<lparr>year = 2025, month = 1, day = 2, hour = 3, minute = 4, second = 5\<rparr>
        = ''20250102_030405_My_Shoot_1'')"
proof -
  let ?t = "\<lparr>year = 2025, month = 1, day = 2, hour = 3, minute = 4, second = 5\<rparr>"
  have s: "strftime ?t = ''20250102_030405''"
    by (simp add: strftime_def pad4_def pad2_def digit_def)
  have ch: "\<forall>c \<in> set (safe_project_name isalnum isspace entry).
      isalnum c \<or> c = CHR ''-'' \<or> c = CHR ''_''"
    using safe_chars by blast
  have concrete: "date_folder_name isalnum isspace False ''  My Shoot! #1  '' now = ''My_Shoot_1'' \<and>
      update_folder_preview isalnum isspace False ''  My Shoot! #1  '' now = ''My_Shoot_1'' \<and>
      date_folder_name isalnum isspace True ''  My Shoot! #1  '' ?t = ''20250102_030405_My_Shoot_1'' \<and>
      update_folder_preview isalnum isspace True ''  My Shoot! #1  '' ?t
        = ''20250102_030405_My_Shoot_1''"
    if cl: "ascii_classes isalnum isspace"
  proof -
    have a: "safe_project_name ascii_isalnum ascii_isspace ''  My Shoot! #1  '' = ''My_Shoot_1''"
      by (simp add: safe_project_name_def strip_def ascii_isspace_def keep_char_def
          ascii_isalnum_def replace_spaces_def)
    have "\<forall>c \<in> set ''  My Shoot! #1  ''. (of_char c :: nat) < 128" by simp
    from safe_project_name_ascii [OF cl this] a
    have e: "safe_project_name isalnum isspace ''  My Shoot! #1  '' = ''My_Shoot_1''" by simp
    have d1: "date_folder_name isalnum isspace False ''  My Shoot! #1  '' now = ''My_Shoot_1''"
      by (simp add: date_folder_name_def e)
    have d2: "update_folder_preview isalnum isspace False ''  My Shoot! #1  '' now = ''My_Shoot_1''"
      by (simp add: update_folder_preview_def e)
    have d3: "date_folder_name isalnum isspace True ''  My Shoot! #1  '' ?t
        = ''20250102_030405_My_Shoot_1''"
      unfolding date_folder_name_def e s by simp
    have d4: "update_folder_preview isalnum isspace True ''  My Shoot! #1  '' ?t
        = ''20250102_030405_My_Shoot_1''"
      unfolding update_folder_preview_def e s by simp
    from d1 d2 d3 d4 show ?thesis by blast
  qed
  from safe_project_name_steps [of isalnum isspace entry] ch concrete show ?thesis by blast
qed

theorem sanitized_folder_name_witness:
  "ascii_classes ascii_isalnum ascii_isspace \<and>
   safe_project_name ascii_isalnum ascii_isspace ''a b!'' = ''a_b'' \<and>
   ascii_isalnum CHR ''a'' \<and> ascii_isalnum CHR ''b'' \<and>
   date_folder_name ascii_isalnum ascii_isspace False ''  My Shoot! #1  ''
     \<lparr>year = 2025, month = 1, day = 2, hour = 3, minute = 4, second = 5\<rparr> = ''My_Shoot_1'' \<and>
   date_folder_name ascii_isalnum ascii_isspace True ''  My Shoot! #1  ''
     \<lparr>year = 2025, month = 1, day = 2, hour = 3, minute = 4, second = 5\<rparr>
     = ''20250102_030405_My_Shoot_1''"
proof -
  have cl: "ascii_classes ascii_isalnum ascii_isspace" by (simp add: ascii_classes_def)
  have ab: "replace_spaces (strip ascii_isspace (filter (keep_char ascii_isalnum)
      (strip ascii_isspace ''a b!''))) = ''a_b''"
    by (simp add: strip_def ascii_isspace_def keep_char_def ascii_isalnum_def replace_spaces_def)
  show ?thesis
    using sanitized_folder_name [of ascii_isalnum ascii_isspace "''a b!''"
        "\<lparr>year = 2025, month = 1, day = 2, hour = 3, minute = 4, second = 5\<rparr>"] cl ab
    by (simp add: ascii_isalnum_def)
qed

lemma read_chunks_concat: "concat (read_chunks n data) = (if n = 0 then [] else data)"
proof (induction n data rule: read_chunks.induct)
  case (1 n data)
  show ?case
  proof (cases "take n data = []")
    case True
    then show ?thesis by (subst read_chunks.simps) auto
  next
    case False
    then have "n \<noteq> 0" by auto
    with False 1 show ?thesis by (subst read_chunks.simps) simp
  qed
qed

text \<open>
  C8. A readable file whose bytes are the same at both digest computations verifies against
  itself: \<open>verify_file\<close> with source and destination both \<open>f\<close> returns match true and an
  empty detail string.
\<close>

theorem verify_file_same:
  "fs1 f = Inr data \<Longrightarrow> fs2 f = Inr data \<Longrightarrow> verify_file md5 fs1 fs2 f f = (True, [])"
  by (simp add: verify_file_def calculate_md5_def)

theorem verify_file_same_witness:
  "verify_file (\<lambda>d. rev d) (\<lambda>p. if p = ''a.jpg'' then Inr ''xyz'' else Inl ''missing'')
     (\<lambda>p. if p = ''a.jpg'' then Inr ''xyz'' else Inl ''missing'') ''a.jpg'' ''a.jpg'' = (True, [])"
  using verify_file_same [of "\<lambda>p. if p = ''a.jpg'' then Inr ''xyz'' else Inl ''missing''" "''a.jpg''" "''xyz''"
      "\<lambda>p. if p = ''a.jpg'' then Inr ''xyz'' else Inl ''missing''" "\<lambda>d. rev d"]
  by simp

lemma split_once_cases:
  "sep \<noteq> [] \<Longrightarrow>
   (split_once sep s = [s] \<and> (\<forall>i. take (length sep) (drop i s) \<noteq> sep)) \<or>
   (\<exists>h t. split_once sep s = [h, t] \<and> s = h @ sep @ t \<and>
       (\<forall>i<length h. take (length sep) (drop i s) \<noteq> sep))"
proof (induction s)
  case Nil
  then show ?case by simp
next
  case (Cons c cs)
  show ?case
  proof (cases "take (length sep) (c # cs) = sep")
    case True
    then have "c # cs = [] @ sep @ drop (length sep) (c # cs)"
      by (metis append_Nil append_take_drop_id)
    with True show ?thesis by auto
  next
    case False
    from Cons.IH [OF Cons.prems] show ?thesis
    proof
      assume a: "split_once sep cs = [cs] \<and> (\<forall>i. take (length sep) (drop i cs) \<noteq> sep)"
      have "\<forall>i. take (length sep) (drop i (c # cs)) \<noteq> sep"
      proof
        fix i show "take (length sep) (drop i (c # cs)) \<noteq> sep"
          using False a by (cases i) auto
      qed
      with False a show ?thesis by simp
    next
      assume "\<exists>h t. split_once sep cs = [h, t] \<and> cs = h @ sep @ t \<and>
         (\<forall>i<length h. take (length sep) (drop i cs) \<noteq> sep)"
      then obtain h t where ht: "split_once sep cs = [h, t]" "cs = h @ sep @ t"
        "\<forall>i<length h. take (length sep) (drop i cs) \<noteq> sep" by blast
      have "\<forall>i<length (c # h). take (length sep) (drop i (c # cs)) \<noteq> sep"
      proof (intro allI impI)
        fix i assume "i < length (c # h)"
        then show "take (length sep) (drop i (c # cs)) \<noteq> sep"
          using False ht(3) by (cases i) auto
      qed
      with False ht show ?thesis by auto
    qed
  qed
qed

lemma first_occurrence_unique:
  assumes "s = h @ sep @ t" "\<forall>i<length h. take (length sep) (drop i s) \<noteq> sep"
    and "s = h' @ sep @ t'" "\<forall>i<length h'. take (length sep) (drop i s) \<noteq> sep"
  shows "h = h' \<and> t = t'"
proof -
  have o: "take (length sep) (drop (length h) s) = sep" using assms(1) by simp
  have o': "take (length sep) (drop (length h') s) = sep" using assms(3) by simp
  have "\<not> length h < length h'" using assms(4) o by blast
  moreover have "\<not> length h' < length h" using assms(2) o' by blast
  ultimately have l: "length h = length h'" by simp
  with assms(1,3) show ?thesis by (metis append_eq_append_conv)
qed

lemma split_once_found:
  assumes "sep \<noteq> []" "s = h @ sep @ t" "\<forall>i<length h. take (length sep) (drop i s) \<noteq> sep"
  shows "split_once sep s = [h, t]"
proof -
  from split_once_cases [OF assms(1), of s] show ?thesis
  proof
    assume "split_once sep s = [s] \<and> (\<forall>i. take (length sep) (drop i s) \<noteq> sep)"
    then have "take (length sep) (drop (length h) s) \<noteq> sep" by blast
    with assms(2) show ?thesis by simp
  next
    assume "\<exists>h t. split_once sep s = [h, t] \<and> s = h @ sep @ t \<and>
       (\<forall>i<length h. take (length sep) (drop i s) \<noteq> sep)"
    then obtain h' t' where ht: "split_once sep s = [h', t']" "s = h' @ sep @ t'"
      "\<forall>i<length h'. take (length sep) (drop i s) \<noteq> sep" by blast
    from first_occurrence_unique [OF assms(2,3) ht(2,3)] ht(1) show ?thesis by simp
  qed
qed

lemma split_once_absent:
  assumes "sep \<noteq> []" "\<forall>i. take (length sep) (drop i s) \<noteq> sep"
  shows "split_once sep s = [s]"
proof -
  from split_once_cases [OF assms(1), of s] show ?thesis
  proof
    assume "split_once sep s = [s] \<and> (\<forall>i. take (length sep) (drop i s) \<noteq> sep)"
    then show ?thesis by simp
  next
    assume "\<exists>h t. split_once sep s = [h, t] \<and> s = h @ sep @ t \<and>
       (\<forall>i<length h. take (length sep) (drop i s) \<noteq> sep)"
    then obtain h t where "s = h @ sep @ t" by blast
    then have "take (length sep) (drop (length h) s) = sep" by simp
    with assms(2) show ?thesis by blast
  qed
qed

text \<open>
  C9. The manifest loader returns the map built line by line from the opened file. A line
  that is blank after stripping (whatever characters Python counts as whitespace), or begins
  with \<open>#\<close>, leaves the map unchanged; any other
  line is split at the leftmost two-space separator only, the part before it being the
  digest and everything after it (later double spaces included) the path; a line with no
  two-space separator leaves the map unchanged.
\<close>

theorem manifest_loader:
  "(read_lines f = Inr lines \<longrightarrow>
      load_checksum_file isspace read_lines f = Inr (foldl (load_line isspace) Map.empty lines)) \<and>
   (strip isspace raw = [] \<or> take 1 (strip isspace raw) = ''#'' \<longrightarrow> load_line isspace m raw = m) \<and>
   (strip isspace raw \<noteq> [] \<and> take 1 (strip isspace raw) \<noteq> ''#'' \<and> strip isspace raw = h @ ''  '' @ t \<and>
      (\<forall>i<length h. take 2 (drop i (strip isspace raw)) \<noteq> ''  '') \<longrightarrow> load_line isspace m raw = m(t \<mapsto> h)) \<and>
   (strip isspace raw \<noteq> [] \<and> take 1 (strip isspace raw) \<noteq> ''#'' \<and>
      (\<forall>i. take 2 (drop i (strip isspace raw)) \<noteq> ''  '') \<longrightarrow> load_line isspace m raw = m)"
proof (intro conjI impI)
  assume "read_lines f = Inr lines"
  then show "load_checksum_file isspace read_lines f = Inr (foldl (load_line isspace) Map.empty lines)"
    by (simp add: load_checksum_file_def)
next
  assume "strip isspace raw = [] \<or> take 1 (strip isspace raw) = ''#''"
  then show "load_line isspace m raw = m" by (auto simp: load_line_def)
next
  assume a: "strip isspace raw \<noteq> [] \<and> take 1 (strip isspace raw) \<noteq> ''#'' \<and> strip isspace raw = h @ ''  '' @ t \<and>
      (\<forall>i<length h. take 2 (drop i (strip isspace raw)) \<noteq> ''  '')"
  have l: "length ''  '' = 2" by simp
  have "split_once ''  '' (strip isspace raw) = [h, t]"
  proof (rule split_once_found)
    show "''  '' \<noteq> []" by simp
    show "strip isspace raw = h @ ''  '' @ t" using a by blast
    show "\<forall>i<length h. take (length ''  '') (drop i (strip isspace raw)) \<noteq> ''  ''"
      unfolding l using a by blast
  qed
  moreover from a have "strip isspace raw \<noteq> []" "take 1 (strip isspace raw) \<noteq> ''#''" by blast+
  ultimately show "load_line isspace m raw = m(t \<mapsto> h)" by (simp add: load_line_def)
next
  assume a: "strip isspace raw \<noteq> [] \<and> take 1 (strip isspace raw) \<noteq> ''#'' \<and>
      (\<forall>i. take 2 (drop i (strip isspace raw)) \<noteq> ''  '')"
  have l: "length ''  '' = 2" by simp
  have "split_once ''  '' (strip isspace raw) = [strip isspace raw]"
  proof (rule split_once_absent)
    show "''  '' \<noteq> []" by simp
    show "\<forall>i. take (length ''  '') (drop i (strip isspace raw)) \<noteq> ''  ''"
      unfolding l using a by blast
  qed
  moreover from a have "strip isspace raw \<noteq> []" "take 1 (strip isspace raw) \<noteq> ''#''" by blast+
  ultimately show "load_line isspace m raw = m" by (simp add: load_line_def)
qed

theorem manifest_loader_witness:
  "(case load_checksum_file ascii_isspace
      (\<lambda>p. Inr [''# made by hand\<newline>'', ''\<newline>'', ''0cc1  a  b.jpg\<newline>'', ''no-separator\<newline>''])
      ''checksums.md5'' of
      Inl e \<Rightarrow> None
    | Inr m \<Rightarrow> Some (m ''a  b.jpg'', m ''b.jpg'', m ''no-separator'')) =
     Some (Some ''0cc1'', None, None)"
proof -
  let ?ls = "[''# made by hand\<newline>'', ''\<newline>'', ''0cc1  a  b.jpg\<newline>'', ''no-separator\<newline>'']"
  let ?rd = "\<lambda>p::path. (Inr ?ls :: string + string list)"
  have s1: "strip ascii_isspace ''# made by hand\<newline>'' = ''# made by hand''"
    and s2: "strip ascii_isspace ''\<newline>'' = []"
    and s3: "strip ascii_isspace ''0cc1  a  b.jpg\<newline>'' = ''0cc1'' @ ''  '' @ ''a  b.jpg''"
    and s4: "strip ascii_isspace ''no-separator\<newline>'' = ''no-separator''"
    by (simp_all add: strip_def ascii_isspace_def)
  note ml = manifest_loader [where isspace = ascii_isspace and read_lines = ?rd and f = "''checksums.md5''" and lines = ?ls]
  have l1: "load_line ascii_isspace m ''# made by hand\<newline>'' = m" for m
    using ml [where raw = "''# made by hand\<newline>''" and m = m, THEN conjunct2, THEN conjunct1]
    unfolding s1 by simp
  have l2: "load_line ascii_isspace m ''\<newline>'' = m" for m
    using ml [where raw = "''\<newline>''" and m = m, THEN conjunct2, THEN conjunct1]
    unfolding s2 by simp
  have l3: "load_line ascii_isspace m ''0cc1  a  b.jpg\<newline>'' = m(''a  b.jpg'' \<mapsto> ''0cc1'')" for m
  proof -
    have "\<forall>i<length ''0cc1''. take 2 (drop i (''0cc1'' @ ''  '' @ ''a  b.jpg'')) \<noteq> ''  ''"
      by (simp add: less_Suc_eq)
    then show ?thesis
      using ml [where raw = "''0cc1  a  b.jpg\<newline>''" and m = m and h = "''0cc1''"
          and t = "''a  b.jpg''", THEN conjunct2, THEN conjunct2, THEN conjunct1]
      unfolding s3 by simp
  qed
  have l4: "load_line ascii_isspace m ''no-separator\<newline>'' = m" for m
  proof -
    have "\<forall>i. take 2 (drop i ''no-separator'') \<noteq> ''  ''"
    proof
      fix i show "take 2 (drop i ''no-separator'') \<noteq> ''  ''"
      proof (cases "i < 12")
        case True
        then show ?thesis by (simp add: less_Suc_eq numeral_eq_Suc) (elim disjE; simp)
      next
        case False
        then show ?thesis by simp
      qed
    qed
    then show ?thesis
      using ml [where raw = "''no-separator\<newline>''" and m = m,
          THEN conjunct2, THEN conjunct2, THEN conjunct2]
      unfolding s4 by simp
  qed
  have "load_checksum_file ascii_isspace ?rd ''checksums.md5'' = Inr (foldl (load_line ascii_isspace) Map.empty ?ls)"
    using ml [THEN conjunct1] by simp
  then show ?thesis
    by (simp add: l1 l2 l3 l4)
qed

lemma copy_speed_nonneg: "0 \<le> copy_speed_mb_s e w"
  by (simp add: copy_speed_mb_s_def Let_def)

text \<open>
  C6. The estimated remaining time is never negative. In the copy phase it is the remaining
  bytes divided by the speed in bytes per second when the speed is positive and bytes
  remain, and 0 otherwise; in the verify phase it is the remaining files divided by the
  speed in files per second when that speed is positive and files remain, and 0 otherwise.
  These are the values that the progress updates show.
\<close>

theorem eta_formula:
  "0 \<le> copy_eta_seconds e w \<and>
   copy_eta_seconds e w =
     (if copy_speed_mb_s e w > 0 \<and> real_of_int (total_size w) - copied_size w > 0
      then (real_of_int (total_size w) - copied_size w) / (copy_speed_mb_s e w * (1024 * 1024))
      else 0) \<and>
   0 \<le> verify_eta_seconds e w \<and>
   verify_eta_seconds e w =
     (if verify_speed e w > 0 \<and> total_files w - verified_files w > 0
      then real_of_int (total_files w - verified_files w) / verify_speed e w
      else 0) \<and>
   (total_files w > 0 \<longrightarrow>
      copy_eta_label (shown (update_progress e w)) = copy_eta_seconds e w \<and>
      copy_speed_label (shown (update_progress e w)) = copy_speed_mb_s e w \<and>
      verify_eta_label (shown (update_verify_progress e w)) = verify_eta_seconds e w \<and>
      verify_speed_label (shown (update_verify_progress e w)) = verify_speed e w)"
proof -
  have a: "0 \<le> copy_eta_seconds e w"
    by (simp add: copy_eta_seconds_def Let_def)
  have b: "copy_eta_seconds e w =
     (if copy_speed_mb_s e w > 0 \<and> real_of_int (total_size w) - copied_size w > 0
      then (real_of_int (total_size w) - copied_size w) / (copy_speed_mb_s e w * (1024 * 1024))
      else 0)"
    by (simp add: copy_eta_seconds_def Let_def field_simps)
  have c: "0 \<le> verify_eta_seconds e w"
    by (simp add: verify_eta_seconds_def Let_def)
  have d: "verify_eta_seconds e w =
     (if verify_speed e w > 0 \<and> total_files w - verified_files w > 0
      then real_of_int (total_files w - verified_files w) / verify_speed e w
      else 0)"
    by (simp add: verify_eta_seconds_def Let_def)
  have f: "total_files w > 0 \<longrightarrow>
      copy_eta_label (shown (update_progress e w)) = copy_eta_seconds e w \<and>
      copy_speed_label (shown (update_progress e w)) = copy_speed_mb_s e w \<and>
      verify_eta_label (shown (update_verify_progress e w)) = verify_eta_seconds e w \<and>
      verify_speed_label (shown (update_verify_progress e w)) = verify_speed e w"
    by (simp add: update_progress_def update_verify_progress_def Let_def)
  from a b c d f show ?thesis by blast
qed

theorem eta_formula_witness:
  "copy_eta_label (shown (update_progress card_env (copying_tool\<lparr>copied_size := 200\<rparr>))) = 16 \<and>
   copy_eta_label (shown (update_progress card_env (copying_tool\<lparr>copied_size := 1000\<rparr>))) = 0 \<and>
   copy_eta_label (shown (update_progress card_env (copying_tool\<lparr>copied_size := 0\<rparr>))) = 0"
proof -
  have s: "copy_speed_mb_s card_env (copying_tool\<lparr>copied_size := c\<rparr>) = (if c \<ge> 0 then c / (4 * (1024 * 1024)) else 0)" for c
    by (simp add: copy_speed_mb_s_def copy_elapsed_def card_env_def copying_tool_def idle_tool_def)
  have t: "total_files (copying_tool\<lparr>copied_size := c\<rparr>) > 0" "total_size (copying_tool\<lparr>copied_size := c\<rparr>) = 1000" for c
    by (simp_all add: copying_tool_def idle_tool_def)
  have t0: "0 < total_files copying_tool"
    by (simp add: copying_tool_def idle_tool_def)
  show ?thesis
    using eta_formula [of card_env "copying_tool\<lparr>copied_size := 200\<rparr>"]
      eta_formula [of card_env "copying_tool\<lparr>copied_size := 1000\<rparr>"]
      eta_formula [of card_env "copying_tool\<lparr>copied_size := 0\<rparr>"]
    by (simp add: s t t0)
qed

lemma update_progress_keeps [simp]:
  "total_files (update_progress e w) = total_files w"
  "copied_files (update_progress e w) = copied_files w"
  "verified_files (update_progress e w) = verified_files w"
  "total_size (update_progress e w) = total_size w"
  "copied_size (update_progress e w) = copied_size w"
  "date_folder (update_progress e w) = date_folder w"
  "total_md5_files (update_progress e w) = total_md5_files w"
  "md5_verified_files (update_progress e w) = md5_verified_files w"
  "md5_calc_size (update_progress e w) = md5_calc_size w"
  "copying (update_progress e w) = copying w"
  "polls (update_progress e w) = polls w"
  "dest (update_progress e w) = dest w"
  "trail (update_progress e w) = trail w"
  by (simp_all add: update_progress_def Let_def tick_def log_message_def)

lemma snap_update_progress [simp]: "snap (update_progress e w) = snap w"
  by (simp add: snap_def)

text \<open>
  C1 (as amended). A progress push leaves the tracker's copied-bytes counter at the value it
  had before the push, also when the provisional value differs from it by more than 1% of
  the total: the provisional value is stored (a flagged entry of the trail) only while
  \<open>update_progress\<close> computes what it shows, and the counter is then restored. The counter
  advances when a file is done, by the size of the file.
\<close>

theorem push_restores_counter:
  "copied_size (progress_push e file_size copied w) = copied_size w \<and>
   snap (progress_push e file_size copied w) = snap w \<and>
   copied_size (snd (after_chunk e file_size copied last_update_time last_progress_log w))
     = copied_size w \<and>
   (total_size w > 0 \<and>
    \<bar>temp_copied_size file_size copied w - copied_size w\<bar> > real_of_int (total_size w) * 0.01 \<longrightarrow>
      shown (progress_push e file_size copied w) =
        shown (update_progress e (w\<lparr>copied_size := temp_copied_size file_size copied w\<rparr>)) \<and>
      (True, (snap w)\<lparr>c_copied_size := temp_copied_size file_size copied w\<rparr>)
        \<in> set (trail (progress_push e file_size copied w))) \<and>
   copied_size (count_copied e file file_size copy_start w) = copied_size w + real file_size"
proof -
  have f: "copied_size (count_copied e file file_size copy_start w) = copied_size w + real file_size"
    by (simp add: count_copied_def Let_def mark_def tick_def log_message_def)
  have a: "copied_size (progress_push e n c v) = copied_size v" for n c v
    by (simp add: progress_push_def Let_def mark_def)
  have b: "snap (progress_push e file_size copied w) = snap w"
    by (simp add: progress_push_def Let_def mark_def snap_def)
  have c: "copied_size (snd (after_chunk e file_size copied last_update_time last_progress_log w))
     = copied_size w"
    by (simp add: after_chunk_def Let_def a tick_def log_message_def)
  have d: "total_size w > 0 \<and>
    \<bar>temp_copied_size file_size copied w - copied_size w\<bar> > real_of_int (total_size w) * 0.01 \<longrightarrow>
      shown (progress_push e file_size copied w) =
        shown (update_progress e (w\<lparr>copied_size := temp_copied_size file_size copied w\<rparr>)) \<and>
      (True, (snap w)\<lparr>c_copied_size := temp_copied_size file_size copied w\<rparr>)
        \<in> set (trail (progress_push e file_size copied w))"
    by (simp add: progress_push_def Let_def mark_def snap_def update_progress_def tick_def
        log_message_def copy_elapsed_def copy_speed_mb_s_def copy_eta_seconds_def)
  from a b c d f show ?thesis by blast
qed

lemma push_example:
  "temp_copied_size 500 250 copying_tool = 250"
  "total_size copying_tool = 1000" "copied_size copying_tool = 0"
  "clock card_env (ticks copying_tool) = 5"
  by (simp_all add: temp_copied_size_def copying_tool_def idle_tool_def card_env_def)

theorem push_restores_counter_witness:
  "copied_size (progress_push card_env 500 250 copying_tool) = 0 \<and>
   (True, (snap copying_tool)\<lparr>c_copied_size := 250\<rparr>)
     \<in> set (trail (progress_push card_env 500 250 copying_tool))"
  using push_restores_counter [of card_env 500 250 copying_tool 0 0 "''a.jpg''" 0]
  by (simp add: push_example)

text \<open>
  C1 as stated fails: with 1000 bytes in total and none committed, a push 5 seconds after the
  last one, at 250 of a 500-byte file, has the provisional value 250, more than 1% away from
  the counter, and the counter is 0 after the push.
\<close>

theorem push_commits_counterexample:
  "clock card_env (ticks copying_tool) - 0 \<ge> 0.2 \<and>
   total_size copying_tool > 0 \<and>
   \<bar>temp_copied_size 500 250 copying_tool - copied_size copying_tool\<bar>
      > real_of_int (total_size copying_tool) * 0.01 \<and>
   temp_copied_size 500 250 (tick copying_tool) = 250 \<and>
   copied_size (snd (after_chunk card_env 500 250 0 0 copying_tool)) = 0 \<and>
   copied_size (snd (after_chunk card_env 500 250 0 0 copying_tool))
     \<noteq> temp_copied_size 500 250 (tick copying_tool)"
proof -
  have t: "temp_copied_size 500 250 (tick copying_tool) = 250"
    by (simp add: temp_copied_size_def copying_tool_def idle_tool_def tick_def)
  have c: "copied_size (snd (after_chunk card_env 500 250 0 0 copying_tool)) = 0"
    by (simp add: after_chunk_def Let_def progress_push_def mark_def tick_def log_message_def
        push_example)
  show ?thesis by (simp add: push_example t c)
qed

subsection \<open>What copying leaves unchanged\<close>

subsection \<open>Frames\<close>

lemmas prims = tick_def log_message_def poll_def mark_def

lemma prims_fields [simp]:
  "total_files (tick w) = total_files w"
  "copied_files (tick w) = copied_files w"
  "verified_files (tick w) = verified_files w"
  "total_size (tick w) = total_size w"
  "copied_size (tick w) = copied_size w"
  "date_folder (tick w) = date_folder w"
  "total_md5_files (tick w) = total_md5_files w"
  "md5_verified_files (tick w) = md5_verified_files w"
  "md5_calc_size (tick w) = md5_calc_size w"
  "md5_start_time (tick w) = md5_start_time w"
  "dest (tick w) = dest w"
  "total_files (log_message m w) = total_files w"
  "copied_files (log_message m w) = copied_files w"
  "verified_files (log_message m w) = verified_files w"
  "total_size (log_message m w) = total_size w"
  "copied_size (log_message m w) = copied_size w"
  "date_folder (log_message m w) = date_folder w"
  "total_md5_files (log_message m w) = total_md5_files w"
  "md5_verified_files (log_message m w) = md5_verified_files w"
  "md5_calc_size (log_message m w) = md5_calc_size w"
  "md5_start_time (log_message m w) = md5_start_time w"
  "dest (log_message m w) = dest w"
  "total_files (mark t w) = total_files w"
  "copied_files (mark t w) = copied_files w"
  "verified_files (mark t w) = verified_files w"
  "total_size (mark t w) = total_size w"
  "copied_size (mark t w) = copied_size w"
  "date_folder (mark t w) = date_folder w"
  "total_md5_files (mark t w) = total_md5_files w"
  "md5_verified_files (mark t w) = md5_verified_files w"
  "md5_calc_size (mark t w) = md5_calc_size w"
  "md5_start_time (mark t w) = md5_start_time w"
  "dest (mark t w) = dest w"
  "total_files (poll e w) = total_files w"
  "copied_files (poll e w) = copied_files w"
  "verified_files (poll e w) = verified_files w"
  "total_size (poll e w) = total_size w"
  "copied_size (poll e w) = copied_size w"
  "date_folder (poll e w) = date_folder w"
  "total_md5_files (poll e w) = total_md5_files w"
  "md5_verified_files (poll e w) = md5_verified_files w"
  "md5_calc_size (poll e w) = md5_calc_size w"
  "md5_start_time (poll e w) = md5_start_time w"
  "dest (poll e w) = dest w"
  "copying (tick w) = copying w"
  "polls (tick w) = polls w"
  "copying (log_message m w) = copying w"
  "polls (log_message m w) = polls w"
  "copying (mark t w) = copying w"
  "polls (mark t w) = polls w"
  "log (tick w) = log w"
  "log (mark t w) = log w"
  "log (poll e w) = log w"
  "trail (tick w) = trail w"
  "trail (log_message m w) = trail w"
  "trail (poll e w) = trail w"
  "ticks (log_message m w) = ticks w"
  "ticks (mark t w) = ticks w"
  "ticks (poll e w) = ticks w"
  by (simp_all add: prims)

lemma copy_frameD:
  assumes "copy_frame w' = copy_frame w"
  shows "total_files w' = total_files w" "total_size w' = total_size w"
    "verified_files w' = verified_files w" "date_folder w' = date_folder w"
    "total_md5_files w' = total_md5_files w" "failures w' = failures w"
  using assms by (simp_all add: copy_frame_def)

lemma failures_update [simp]:
  "failures (w\<lparr>log := l\<rparr>) = int (length (filter verify_failure l))"
  "failures (w\<lparr>copying := b\<rparr>) = failures w"
  "failures (w\<lparr>verifying := b\<rparr>) = failures w"
  "failures (w\<lparr>total_files := i\<rparr>) = failures w"
  "failures (w\<lparr>copied_files := i\<rparr>) = failures w"
  "failures (w\<lparr>verified_files := i\<rparr>) = failures w"
  "failures (w\<lparr>total_size := i\<rparr>) = failures w"
  "failures (w\<lparr>copied_size := r\<rparr>) = failures w"
  "failures (w\<lparr>copy_start_time := r\<rparr>) = failures w"
  "failures (w\<lparr>copy_speed := r\<rparr>) = failures w"
  "failures (w\<lparr>verify_start_time := r\<rparr>) = failures w"
  "failures (w\<lparr>date_folder := d\<rparr>) = failures w"
  "failures (w\<lparr>total_md5_files := i\<rparr>) = failures w"
  "failures (w\<lparr>md5_verified_files := i\<rparr>) = failures w"
  "failures (w\<lparr>md5_calc_size := i\<rparr>) = failures w"
  "failures (w\<lparr>md5_calc_speed := r\<rparr>) = failures w"
  "failures (w\<lparr>md5_start_time := r\<rparr>) = failures w"
  "failures (w\<lparr>shown := s\<rparr>) = failures w"
  "failures (w\<lparr>dest := m\<rparr>) = failures w"
  "failures (w\<lparr>ticks := n\<rparr>) = failures w"
  "failures (w\<lparr>polls := n\<rparr>) = failures w"
  "failures (w\<lparr>trail := t\<rparr>) = failures w"
  by (simp_all add: failures_def)

lemma failures_log [simp]: "int (length (filter verify_failure (log w))) = failures w"
  by (simp add: failures_def)

lemma update_progress_frame: "copy_frame (update_progress e w) = copy_frame w"
  by (simp add: copy_frame_def update_progress_def Let_def prims)

lemmas update_progress_fields [simp] = copy_frameD(6) [OF update_progress_frame]

lemma update_progress_log: "x \<in> set (log w) \<Longrightarrow> x \<in> set (log (update_progress e w))"
  by (simp add: update_progress_def Let_def prims)

lemma progress_push_frame: "copy_frame (progress_push e n c w) = copy_frame w"
  by (simp add: progress_push_def Let_def copy_frame_def prims)

lemmas progress_push_fields [simp] = copy_frameD [OF progress_push_frame]

lemma progress_push_keeps [simp]:
  "copied_files (progress_push e n c w) = copied_files w"
  "copied_size (progress_push e n c w) = copied_size w"
  "copying (progress_push e n c w) = copying w" "polls (progress_push e n c w) = polls w"
  "dest (progress_push e n c w) = dest w"
  by (simp_all add: progress_push_def Let_def prims)

lemma after_chunk_frame: "copy_frame (snd (after_chunk e n c t l w)) = copy_frame w"
  by (simp add: after_chunk_def Let_def copy_frame_def prims)

lemmas after_chunk_fields [simp] = copy_frameD [OF after_chunk_frame]

lemma after_chunk_keeps [simp]:
  "copied_files (snd (after_chunk e n c t l w)) = copied_files w"
  "copied_size (snd (after_chunk e n c t l w)) = copied_size w"
  "copying (snd (after_chunk e n c t l w)) = copying w"
  "polls (snd (after_chunk e n c t l w)) = polls w"
  "dest (snd (after_chunk e n c t l w)) = dest w"
  by (simp_all add: after_chunk_def Let_def prims)

lemma chunk_loop_frame:
  "copy_frame (snd (chunk_loop e s d n i c t l chunks w)) = copy_frame w \<and>
   copied_files (snd (chunk_loop e s d n i c t l chunks w)) = copied_files w \<and>
   copied_size (snd (chunk_loop e s d n i c t l chunks w)) = copied_size w"
proof (induction chunks arbitrary: i c t l w)
  case Nil
  show ?case by (simp add: Let_def copy_frame_def prims)
next
  case (Cons chunk rest)
  show ?case
    by (simp add: Let_def Cons.IH split: prod.splits)
      (auto simp: copy_frame_def prims dest!: arg_cong [where f = snd])
qed

lemma pairD: "p = (a, b) \<Longrightarrow> a = fst p \<and> b = snd p"
  by simp

lemmas chunk_loop_fields [simp] =
  copy_frameD [OF chunk_loop_frame [THEN conjunct1]]
  chunk_loop_frame [THEN conjunct2, THEN conjunct1]
  chunk_loop_frame [THEN conjunct2, THEN conjunct2]

lemma copy2_frame:
  "copy_frame (snd (copy2 e s d w)) = copy_frame w \<and>
   copied_files (snd (copy2 e s d w)) = copied_files w \<and>
   copied_size (snd (copy2 e s d w)) = copied_size w"
  by (simp add: copy2_def copy_frame_def split: sum.splits)

lemmas copy2_fields [simp] =
  copy_frameD [OF copy2_frame [THEN conjunct1]]
  copy2_frame [THEN conjunct2, THEN conjunct1]
  copy2_frame [THEN conjunct2, THEN conjunct2]

lemma chunked_copy_frame:
  "copy_frame (snd (chunked_copy e s d n t w)) = copy_frame w \<and>
   copied_files (snd (chunked_copy e s d n t w)) = copied_files w \<and>
   copied_size (snd (chunked_copy e s d n t w)) = copied_size w"
  by (simp add: chunked_copy_def copy_frame_def split: sum.splits)

lemmas chunked_copy_fields [simp] =
  copy_frameD [OF chunked_copy_frame [THEN conjunct1]]
  chunked_copy_frame [THEN conjunct2, THEN conjunct1]
  chunked_copy_frame [THEN conjunct2, THEN conjunct2]

lemma copy_file_with_progress_frame:
  "copy_frame (snd (copy_file_with_progress e s d n w)) = copy_frame w \<and>
   copied_files (snd (copy_file_with_progress e s d n w)) = copied_files w \<and>
   copied_size (snd (copy_file_with_progress e s d n w)) = copied_size w"
  by (auto simp: copy_file_with_progress_def Let_def copy_frame_def prims
      split: prod.splits option.splits dest!: pairD)

lemmas copy_file_with_progress_fields [simp] =
  copy_frameD [OF copy_file_with_progress_frame [THEN conjunct1]]
  copy_file_with_progress_frame [THEN conjunct2, THEN conjunct1]
  copy_file_with_progress_frame [THEN conjunct2, THEN conjunct2]

lemma report_copy_frame:
  "copy_frame (snd (report_copy e s d f w)) = copy_frame w \<and>
   copied_files (snd (report_copy e s d f w)) = copied_files w \<and>
   copied_size (snd (report_copy e s d f w)) = copied_size w"
  by (simp add: report_copy_def copy_frame_def prims split: option.splits)

lemmas report_copy_fields [simp] =
  copy_frameD [OF report_copy_frame [THEN conjunct1]]
  report_copy_frame [THEN conjunct2, THEN conjunct1]
  report_copy_frame [THEN conjunct2, THEN conjunct2]

lemma count_copied_frame: "copy_frame (count_copied e f n t w) = copy_frame w"
  by (simp add: count_copied_def Let_def copy_frame_def prims)

lemmas count_copied_fields [simp] = copy_frameD [OF count_copied_frame]

lemma copy_one_frame: "copy_frame (copy_one e s d f w) = copy_frame w"
  by (auto simp: copy_one_def Let_def copy_frame_def prims
      split: prod.splits option.splits dest!: pairD)

lemmas copy_one_fields [simp] = copy_frameD [OF copy_one_frame]

lemma copy_files_frame: "copy_frame (copy_files e opts r cd files w) = copy_frame w"
  by (induction files arbitrary: w) (simp_all add: Let_def copy_frame_def prims)

lemmas copy_files_fields [simp] = copy_frameD [OF copy_files_frame]

lemma copy_walk_frame: "copy_frame (copy_walk e opts sp tp entries w) = copy_frame w"
  by (induction entries arbitrary: w) (auto simp: Let_def copy_frame_def prims)

lemmas copy_walk_fields [simp] = copy_frameD [OF copy_walk_frame]

lemma copy_folder_frame: "copy_frame (snd (copy_folder e opts sp dp fn w)) = copy_frame w"
  by (simp add: copy_folder_def Let_def copy_frame_def)

lemmas copy_folder_fields [simp] = copy_frameD [OF copy_folder_frame]

lemma copy_items_frame: "copy_frame (snd (copy_items e opts fd items w)) = copy_frame w"
  by (induction items arbitrary: w)
    (auto simp: Let_def copy_frame_def prims split: prod.splits option.splits dest!: pairD)

lemmas copy_items_fields [simp] = copy_frameD [OF copy_items_frame]

subsection \<open>The counters along the copy of a file\<close>

subsection \<open>The trail\<close>

lemma counters_le_refl [simp]: "counters_le c c"
  by (simp add: counters_le_def)

lemma counters_le_trans: "counters_le a b \<Longrightarrow> counters_le b c \<Longrightarrow> counters_le a c"
  by (auto simp: counters_le_def)

lemma committed_simps [simp]:
  "committed [] = []"
  "committed ((t, c) # tr) = (if t then committed tr else c # committed tr)"
  "committed (tr @ tr') = committed tr @ committed tr'"
  by (simp_all add: committed_def)

lemma trail_ok_same: "trail w' = trail w \<Longrightarrow> snap w' = snap w \<Longrightarrow> trail_ok b w \<Longrightarrow> trail_ok b w'"
  by (simp add: trail_ok_def)


lemma trail_ok_grow:
  assumes "trail_ok b w" and "trail w' = trail w"
    and "counters_le (snap w) (snap w')" and "within_totals b (snap w')"
  shows "trail_ok b w'"
  using assms
  by (auto simp: trail_ok_def intro: counters_le_trans)

lemma snap_eqI:
  "total_files w' = total_files w \<Longrightarrow> copied_files w' = copied_files w \<Longrightarrow>
   verified_files w' = verified_files w \<Longrightarrow> total_size w' = total_size w \<Longrightarrow>
   copied_size w' = copied_size w \<Longrightarrow> snap w' = snap w"
  by (simp add: snap_def)

lemma update_progress_trail [simp]:
  "trail (update_progress e w) = trail w" "snap (update_progress e w) = snap w"
  by (simp_all add: update_progress_def Let_def prims snap_def)

lemma temp_le_total: "temp_copied_size n c w \<le> real_of_int (total_size w)"
  by (simp add: temp_copied_size_def Let_def)

lemma progress_push_trail: "trail_ok b w \<Longrightarrow> trail_ok b (progress_push e n c w)"
  unfolding progress_push_def Let_def
  by (auto simp: trail_ok_def prims snap_def within_totals_def temp_le_total sorted_wrt_append)

lemma progress_push_snap [simp]: "snap (progress_push e n c w) = snap w"
  by (simp add: snap_def)

lemma after_chunk_trail: "trail_ok b w \<Longrightarrow> trail_ok b (snd (after_chunk e n c t l w))"
  unfolding after_chunk_def Let_def
  by (auto intro!: progress_push_trail elim: trail_ok_same [rotated 2] simp: prims snap_def)

lemma after_chunk_snap [simp]: "snap (snd (after_chunk e n c t l w)) = snap w"
  by (simp add: snap_def)

lemma trail_ok_raw [simp]:
  "trail_ok b (w\<lparr>dest := m\<rparr>) = trail_ok b w"
  "trail_ok b (w\<lparr>copy_speed := r\<rparr>) = trail_ok b w"
  "trail_ok b (w\<lparr>copy_start_time := r\<rparr>) = trail_ok b w"
  "trail_ok b (w\<lparr>verify_start_time := r\<rparr>) = trail_ok b w"
  "trail_ok b (w\<lparr>md5_start_time := r\<rparr>) = trail_ok b w"
  "trail_ok b (w\<lparr>md5_calc_speed := r\<rparr>) = trail_ok b w"
  "trail_ok b (w\<lparr>md5_calc_size := i\<rparr>) = trail_ok b w"
  "trail_ok b (w\<lparr>md5_verified_files := i\<rparr>) = trail_ok b w"
  "trail_ok b (w\<lparr>total_md5_files := i\<rparr>) = trail_ok b w"
  "trail_ok b (w\<lparr>verifying := v\<rparr>) = trail_ok b w"
  "trail_ok b (w\<lparr>copying := v\<rparr>) = trail_ok b w"
  "trail_ok b (w\<lparr>date_folder := d\<rparr>) = trail_ok b w"
  "trail_ok b (w\<lparr>shown := s\<rparr>) = trail_ok b w"
  "trail_ok b (w\<lparr>log := l\<rparr>) = trail_ok b w"
  "trail_ok b (w\<lparr>ticks := k\<rparr>) = trail_ok b w"
  "trail_ok b (w\<lparr>polls := k\<rparr>) = trail_ok b w"
  by (simp_all add: trail_ok_def snap_def)

lemma trail_ok_prims [simp]:
  "trail_ok b (tick w) = trail_ok b w" "trail_ok b (poll e w) = trail_ok b w"
  "trail_ok b (log_message m w) = trail_ok b w"
  by (simp_all add: prims)

lemma snap_prims [simp]:
  "snap (tick w) = snap w" "snap (poll e w) = snap w" "snap (log_message m w) = snap w"
  "snap (mark t w) = snap w"
  by (simp_all add: prims snap_def)

lemma update_progress_ok [simp]: "trail_ok b (update_progress e w) = trail_ok b w"
  by (simp add: trail_ok_def)

lemma after_chunk_ok [simp]: "trail_ok b w \<Longrightarrow> trail_ok b (snd (after_chunk e n c t l w))"
  by (rule after_chunk_trail)

lemma chunk_loop_trail [simp]:
  "trail_ok b w \<Longrightarrow> trail_ok b (snd (chunk_loop e s d n i c t l chunks w))"
proof (induction chunks arbitrary: i c t l w)
  case Nil
  then show ?case by (simp add: Let_def)
next
  case (Cons chunk rest)
  then show ?case by (simp add: Let_def case_prod_beta)
qed

lemma chunk_loop_snap [simp]: "snap (snd (chunk_loop e s d n i c t l chunks w)) = snap w"
  by (simp add: snap_def)

lemma chunked_copy_trail [simp]: "trail_ok b w \<Longrightarrow> trail_ok b (snd (chunked_copy e s d n t w))"
  by (simp add: chunked_copy_def split: sum.splits)

lemma copy2_trail [simp]: "trail_ok b w \<Longrightarrow> trail_ok b (snd (copy2 e s d w))"
  by (simp add: copy2_def split: sum.splits)

lemma copy_file_with_progress_trail [simp]:
  "trail_ok b w \<Longrightarrow> trail_ok b (snd (copy_file_with_progress e s d n w))"
  by (simp add: copy_file_with_progress_def Let_def case_prod_beta split: option.splits)

lemma copy_file_with_progress_snap [simp]: "snap (snd (copy_file_with_progress e s d n w)) = snap w"
  by (simp add: snap_def)

lemma report_copy_trail [simp]: "trail_ok b w \<Longrightarrow> trail_ok b (snd (report_copy e s d f w))"
  by (simp add: report_copy_def split: option.splits)

lemma report_copy_snap [simp]: "snap (snd (report_copy e s d f w)) = snap w"
  by (simp add: snap_def)


subsection \<open>The counters along the copy phase\<close>






subsection \<open>The counters after the count\<close>

subsection \<open>Counting\<close>

lemma count_files_effect:
  "total_files (count_files e opts rd files w) = total_files w + int (files_count e opts rd files) \<and>
   total_size (count_files e opts rd files w) = total_size w + int (files_size e opts rd files) \<and>
   copied_files (count_files e opts rd files w) = copied_files w \<and>
   copied_size (count_files e opts rd files w) = copied_size w \<and>
   verified_files (count_files e opts rd files w) = verified_files w \<and>
   date_folder (count_files e opts rd files w) = date_folder w \<and>
   failures (count_files e opts rd files w) = failures w \<and>
   copying (count_files e opts rd files w) = copying w \<and>
   dest (count_files e opts rd files w) = dest w"
proof (induction files arbitrary: w)
  case Nil
  show ?case by (simp add: files_count_def files_size_def)
next
  case (Cons f files)
  show ?case
    by (simp add: Let_def Cons.IH files_count_def files_size_def size_of_def prims
        split: option.splits)
qed


lemmas count_files_fields [simp] =
  count_files_effect [THEN conjunct1]
  count_files_effect [THEN conjunct2, THEN conjunct1]
  count_files_effect [THEN conjunct2, THEN conjunct2, THEN conjunct1]
  count_files_effect [THEN conjunct2, THEN conjunct2, THEN conjunct2, THEN conjunct1]
  count_files_effect [THEN conjunct2, THEN conjunct2, THEN conjunct2, THEN conjunct2, THEN conjunct1]
  count_files_effect [THEN conjunct2, THEN conjunct2, THEN conjunct2, THEN conjunct2, THEN conjunct2,
    THEN conjunct1]
  count_files_effect [THEN conjunct2, THEN conjunct2, THEN conjunct2, THEN conjunct2, THEN conjunct2,
    THEN conjunct2, THEN conjunct1]
  count_files_effect [THEN conjunct2, THEN conjunct2, THEN conjunct2, THEN conjunct2, THEN conjunct2,
    THEN conjunct2, THEN conjunct2, THEN conjunct1]
  count_files_effect [THEN conjunct2, THEN conjunct2, THEN conjunct2, THEN conjunct2, THEN conjunct2,
    THEN conjunct2, THEN conjunct2, THEN conjunct2]

lemma count_walk_effect:
  "total_files (count_walk e opts entries w) = total_files w + int (walk_count e opts entries) \<and>
   total_size (count_walk e opts entries w) = total_size w + int (walk_size e opts entries) \<and>
   copied_files (count_walk e opts entries w) = copied_files w \<and>
   copied_size (count_walk e opts entries w) = copied_size w \<and>
   verified_files (count_walk e opts entries w) = verified_files w \<and>
   date_folder (count_walk e opts entries w) = date_folder w \<and>
   failures (count_walk e opts entries w) = failures w \<and>
   copying (count_walk e opts entries w) = copying w \<and>
   dest (count_walk e opts entries w) = dest w"
proof (induction entries arbitrary: w)
  case Nil
  show ?case by (simp add: walk_count_def walk_size_def)
next
  case (Cons entry entries)
  show ?case by (cases entry) (simp add: Cons.IH walk_count_def walk_size_def)
qed


lemmas count_walk_fields [simp] =
  count_walk_effect [THEN conjunct1]
  count_walk_effect [THEN conjunct2, THEN conjunct1]
  count_walk_effect [THEN conjunct2, THEN conjunct2, THEN conjunct1]
  count_walk_effect [THEN conjunct2, THEN conjunct2, THEN conjunct2, THEN conjunct1]
  count_walk_effect [THEN conjunct2, THEN conjunct2, THEN conjunct2, THEN conjunct2, THEN conjunct1]
  count_walk_effect [THEN conjunct2, THEN conjunct2, THEN conjunct2, THEN conjunct2, THEN conjunct2,
    THEN conjunct1]
  count_walk_effect [THEN conjunct2, THEN conjunct2, THEN conjunct2, THEN conjunct2, THEN conjunct2,
    THEN conjunct2, THEN conjunct1]
  count_walk_effect [THEN conjunct2, THEN conjunct2, THEN conjunct2, THEN conjunct2, THEN conjunct2,
    THEN conjunct2, THEN conjunct2, THEN conjunct1]
  count_walk_effect [THEN conjunct2, THEN conjunct2, THEN conjunct2, THEN conjunct2, THEN conjunct2,
    THEN conjunct2, THEN conjunct2, THEN conjunct2]

lemma count_items_effect:
  "total_files (count_items e opts items w) = total_files w + int (items_count e opts items) \<and>
   total_size (count_items e opts items w) = total_size w + int (items_size e opts items) \<and>
   copied_files (count_items e opts items w) = copied_files w \<and>
   copied_size (count_items e opts items w) = copied_size w \<and>
   verified_files (count_items e opts items w) = verified_files w \<and>
   date_folder (count_items e opts items w) = date_folder w \<and>
   failures (count_items e opts items w) = failures w \<and>
   copying (count_items e opts items w) = copying w \<and>
   dest (count_items e opts items w) = dest w"
proof (induction items arbitrary: w)
  case Nil
  show ?case by (simp add: items_count_def items_size_def)
next
  case (Cons item items)
  show ?case by (simp add: Cons.IH items_count_def items_size_def)
qed


lemmas count_items_fields [simp] =
  count_items_effect [THEN conjunct1]
  count_items_effect [THEN conjunct2, THEN conjunct1]
  count_items_effect [THEN conjunct2, THEN conjunct2, THEN conjunct1]
  count_items_effect [THEN conjunct2, THEN conjunct2, THEN conjunct2, THEN conjunct1]
  count_items_effect [THEN conjunct2, THEN conjunct2, THEN conjunct2, THEN conjunct2, THEN conjunct1]
  count_items_effect [THEN conjunct2, THEN conjunct2, THEN conjunct2, THEN conjunct2, THEN conjunct2,
    THEN conjunct1]
  count_items_effect [THEN conjunct2, THEN conjunct2, THEN conjunct2, THEN conjunct2, THEN conjunct2,
    THEN conjunct2, THEN conjunct1]
  count_items_effect [THEN conjunct2, THEN conjunct2, THEN conjunct2, THEN conjunct2, THEN conjunct2,
    THEN conjunct2, THEN conjunct2, THEN conjunct1]
  count_items_effect [THEN conjunct2, THEN conjunct2, THEN conjunct2, THEN conjunct2, THEN conjunct2,
    THEN conjunct2, THEN conjunct2, THEN conjunct2]

subsection \<open>What verification leaves unchanged\<close>

subsection \<open>Verification\<close>

lemma verify_step_refl [simp]: "verify_step w w"
  by (simp add: verify_step_def)

lemma verify_step_trans: "verify_step w w' \<Longrightarrow> verify_step w' w'' \<Longrightarrow> verify_step w w''"
  by (auto simp: verify_step_def)


lemma verify_step_poll [simp]: "verify_step w (poll e w)"
  by (simp add: verify_step_def verify_frame_def prims)

lemma update_verify_progress_step [simp]: "verify_step w (update_verify_progress e w)"
  by (auto simp: verify_step_def verify_frame_def update_verify_progress_def Let_def prims)

lemma update_verify_progress_fields [simp]:
  "total_files (update_verify_progress e w) = total_files w"
  "total_size (update_verify_progress e w) = total_size w"
  "copied_files (update_verify_progress e w) = copied_files w"
  "copied_size (update_verify_progress e w) = copied_size w"
  "verified_files (update_verify_progress e w) = verified_files w"
  "date_folder (update_verify_progress e w) = date_folder w"
  "total_md5_files (update_verify_progress e w) = total_md5_files w"
  "md5_verified_files (update_verify_progress e w) = md5_verified_files w"
  "dest (update_verify_progress e w) = dest w"
  "copying (update_verify_progress e w) = copying w"
  "trail (update_verify_progress e w) = trail w"
  "failures (update_verify_progress e w) = failures w"
  by (simp_all add: update_verify_progress_def Let_def prims)

lemma update_verify_progress_log:
  "set (log w) \<subseteq> set (log (update_verify_progress e w))"
  by (auto simp: update_verify_progress_def Let_def prims)

lemma md5_timing_fields [simp]:
  "total_files (md5_timing e w) = total_files w"
  "total_size (md5_timing e w) = total_size w"
  "copied_files (md5_timing e w) = copied_files w"
  "copied_size (md5_timing e w) = copied_size w"
  "verified_files (md5_timing e w) = verified_files w"
  "date_folder (md5_timing e w) = date_folder w"
  "total_md5_files (md5_timing e w) = total_md5_files w"
  "md5_verified_files (md5_timing e w) = md5_verified_files w"
  "dest (md5_timing e w) = dest w"
  "copying (md5_timing e w) = copying w"
  "trail (md5_timing e w) = trail w"
  "failures (md5_timing e w) = failures w"
  by (simp_all add: md5_timing_def Let_def prims)

lemma md5_timing_log: "set (log w) \<subseteq> set (log (md5_timing e w))"
  by (auto simp: md5_timing_def Let_def prims)

lemma compare_md5_step:
  "verify_frame (compare_md5 e s d f w) = verify_frame w \<and>
   verified_files (compare_md5 e s d f w) + failures (compare_md5 e s d f w) =
     verified_files w + failures w + 1 \<and>
   md5_verified_files (compare_md5 e s d f w) = md5_verified_files w \<and>
   copying (compare_md5 e s d f w) = copying w \<and>
   set (log w) \<subseteq> set (log (compare_md5 e s d f w)) \<and>
   verified_files w \<le> verified_files (compare_md5 e s d f w)"
proof -
  let ?w2 = "md5_timing e w"
  let ?ok = "\<lambda>w'. verify_frame w' = verify_frame w \<and>
     verified_files w' + failures w' = verified_files w + failures w + 1 \<and>
     md5_verified_files w' = md5_verified_files w \<and> copying w' = copying w \<and>
     set (log w) \<subseteq> set (log w') \<and> verified_files w \<le> verified_files w'"
  have fail: "?ok (log_message m ?w2)" if "verify_failure m" for m
    using that md5_timing_log [of w e] by (auto simp: verify_frame_def prims)
  have match: "?ok (log_message (LogMd5Match f h)
       (update_verify_progress e (mark False (?w2\<lparr>verified_files := verified_files ?w2 + 1\<rparr>))))"
    for h
    using md5_timing_log [of w e]
      update_verify_progress_log [of "mark False (?w2\<lparr>verified_files := verified_files ?w2 + 1\<rparr>)" e]
    by (auto simp: verify_frame_def prims)
  show ?thesis
    unfolding compare_md5_def Let_def
    using fail match by (simp split: sum.splits)
qed

lemma verify_one_step:
  "verify_frame (verify_one e s d f w) = verify_frame w \<and>
   verified_files (verify_one e s d f w) + failures (verify_one e s d f w) =
     verified_files w + failures w + 1 \<and>
   md5_verified_files (verify_one e s d f w) = md5_verified_files w + 1 \<and>
   copying (verify_one e s d f w) = copying w \<and>
   set (log w) \<subseteq> set (log (verify_one e s d f w)) \<and>
   verified_files w \<le> verified_files (verify_one e s d f w) \<and>
   (dest w d = None \<longrightarrow> LogMissing f \<in> set (log (verify_one e s d f w)))"
proof -
  let ?w1 = "w\<lparr>md5_verified_files := md5_verified_files w + 1\<rparr>"
  let ?w2 = "case getsize e s of
                  Some file_size \<Rightarrow> ?w1\<lparr>md5_calc_size := md5_calc_size ?w1 + int file_size\<rparr>
                | None \<Rightarrow> ?w1"
  let ?w3 = "log_message (LogCheckFile f s d (dest ?w2 d \<noteq> None)) ?w2"
  have w3: "verify_frame ?w3 = verify_frame w" "verified_files ?w3 = verified_files w"
    "failures ?w3 = failures w" "md5_verified_files ?w3 = md5_verified_files w + 1"
    "copying ?w3 = copying w" "set (log w) \<subseteq> set (log ?w3)" "dest ?w3 = dest w"
    by (auto simp: verify_frame_def prims split: option.splits)
  show ?thesis
  proof (cases "dest w d")
    case None
    have "verify_one e s d f w = log_message (LogMissing f) ?w3"
      using None w3(7) by (simp add: verify_one_def Let_def)
    then show ?thesis using w3 None by (auto simp: verify_frame_def prims)
  next
    case (Some data)
    have "verify_one e s d f w = compare_md5 e s d f ?w3"
      using Some w3(7) by (simp add: verify_one_def Let_def)
    then show ?thesis using w3 Some compare_md5_step [of e s d f ?w3] by auto
  qed
qed

lemma verify_one_verify_step [simp]: "verify_step w (verify_one e s d f w)"
  using verify_one_step [of e s d f w] by (simp add: verify_step_def)

lemma verify_file_list_step [simp]: "verify_step w (verify_file_list e rd cd files w)"
proof (induction files arbitrary: w)
  case Nil
  show ?case by simp
next
  case (Cons f files)
  have "verify_step w (verify_one e (join e rd f) (join e cd f) f (poll e w))"
    by (rule verify_step_trans [OF verify_step_poll verify_one_verify_step])
  from verify_step_trans [OF this Cons.IH] show ?case
    by (simp add: Let_def)
qed

lemma verify_walk_step [simp]: "verify_step w (verify_walk e sp dp entries w)"
proof (induction entries arbitrary: w)
  case Nil
  show ?case by simp
next
  case (Cons entry entries)
  obtain rd files where entry: "entry = (rd, files)" by (cases entry)
  have "verify_step w (verify_file_list e rd (current_dest_of e sp dp rd) files (poll e w))"
    by (rule verify_step_trans [OF verify_step_poll verify_file_list_step])
  from verify_step_trans [OF this Cons.IH] show ?case
    by (simp add: Let_def entry)
qed

lemma verify_folder_step [simp]: "verify_step w (verify_folder e sp dp w)"
  by (simp add: verify_folder_def)

lemma verify_items_step [simp]: "verify_step w (verify_items e fd items w)"
proof (induction items arbitrary: w)
  case Nil
  show ?case by simp
next
  case (Cons item items)
  have "verify_step w (verify_folder e (item_path item) (join e fd (folder_name_of item)) (poll e w))"
    by (rule verify_step_trans [OF verify_step_poll verify_folder_step])
  from verify_step_trans [OF this Cons.IH] show ?case
    by (simp add: Let_def)
qed

subsection \<open>The counters along the verification\<close>

lemma md5_timing_ok [simp]:
  "trail_ok b (md5_timing e w) = trail_ok b w" "snap (md5_timing e w) = snap w"
  by (simp_all add: trail_ok_def snap_def)

lemma update_verify_progress_ok [simp]:
  "trail_ok b (update_verify_progress e w) = trail_ok b w"
  "snap (update_verify_progress e w) = snap w"
  by (simp_all add: trail_ok_def snap_def)






subsection \<open>The counters along a session\<close>


lemma count_md5_files_length: "count_md5_files e items = int (items_length e items)"
proof -
  have "(\<Sum>(rd, files) \<leftarrow> es. int (length files)) = int (walk_length es)" for es :: "(path \<times> string list) list"
    by (induction es) (auto simp: walk_length_def)
  then show ?thesis
    unfolding count_md5_files_def items_length_def
    by (induction items) simp_all
qed





subsection \<open>The small session, step by step\<close>














end
